theory Spec2Isabelle
  imports Main "HOL-Library.Word" "HOL-Library.Char_ord" "HOL-Library.List_Lexorder"
    "HOL-Library.Multiset"
begin

section \<open>Data model of cmd/ls\<close>

text \<open>
  Go's \<^verbatim>\<open>uint\<close> and \<^verbatim>\<open>int\<close> are taken at their 64-bit width (the program uses
  \<^verbatim>\<open>syscall.Stat_t\<close>, so it is built for a Unix target; on the usual 64-bit targets both
  are 64 bits wide). Unsigned arithmetic on \<^typ>\<open>64 word\<close> wraps as Go's does.

  A Go \<^verbatim>\<open>error\<close> value is either a \<^verbatim>\<open>*fs.PathError\<close> (operation, path, underlying
  message) or some other error known by its message only.
\<close>

datatype error = PathError string string string | OtherError string

text \<open>Run-time panics of the Go program: a method call through a nil interface value and
  an integer division by zero.\<close>

datatype panic = NilDereference | DivideByZero

text \<open>The fields of \<^verbatim>\<open>syscall.Stat_t\<close> the program reads, at their widths on linux/amd64
  (\<^verbatim>\<open>Blocks\<close> is an \<^verbatim>\<open>int64\<close>, kept as its 64 bits).\<close>

record stat_t =
  Nlink :: "64 word"
  Blocks :: "64 word"
  Uid :: "32 word"
  Gid :: "32 word"

text \<open>
  What the program reads through the \<^verbatim>\<open>fs.FileInfo\<close> interface: \<^verbatim>\<open>IsDir()\<close>,
  \<^verbatim>\<open>Size()\<close>, \<^verbatim>\<open>Mode().String()\<close>, \<^verbatim>\<open>ModTime()\<close> (kept as an abstract time
  stamp) and \<^verbatim>\<open>Sys()\<close>, which is a \<^verbatim>\<open>*syscall.Stat_t\<close> or something else
  (\<open>None\<close>).
\<close>

record fileInfo =
  IsDir :: bool
  Size :: int
  ModeString :: string
  ModTime :: int
  Sys :: "stat_t option"

record userT =
  Username :: string

record groupT =
  Name :: string

text \<open>
  \<^verbatim>\<open>entryInfo\<close>. The embedded interface \<^verbatim>\<open>fs.FileInfo\<close> may be nil (\<open>None\<close>), and so
  may the pointers \<^verbatim>\<open>user\<close> and \<^verbatim>\<open>group\<close>.
\<close>

datatype entryInfo = EntryInfo
  (path: string)
  (FileInfo: "fileInfo option")
  (directRequest: bool)
  (numLinks: int)
  (numBlocks: "64 word")
  (uID: int)
  (gID: int)
  (user: "userT option")
  (group: "groupT option")
  (subEntries: "entryInfo list")

definition newEntryInfo :: "string \<Rightarrow> fileInfo option \<Rightarrow> entryInfo" where
  "newEntryInfo p fsInfo = EntryInfo p fsInfo False 0 0 (- 1) (- 1) None None []"

text \<open>\<^verbatim>\<open>e.IsDir()\<close> goes through the embedded interface and panics when it is nil.\<close>

definition entryIsDir :: "entryInfo \<Rightarrow> panic + bool" where
  "entryIsDir e = (case FileInfo e of None \<Rightarrow> Inl NilDereference | Some fi \<Rightarrow> Inr (IsDir fi))"

definition SafeName :: "entryInfo \<Rightarrow> string" where
  "SafeName e = (if CHR '' '' \<in> set (path e) then [CHR 0x27] @ path e @ [CHR 0x27] else path e)"

text \<open>Go's integer division panics on a zero divisor.\<close>

definition udiv :: "64 word \<Rightarrow> 64 word \<Rightarrow> panic + 64 word" where
  "udiv a b = (if b = 0 then Inl DivideByZero else Inr (a div b))"

text \<open>The \<^verbatim>\<open>for ... range e.subEntries\<close> loop of \<^verbatim>\<open>blocksForSize\<close>.\<close>

fun sumBlocks :: "64 word \<Rightarrow> entryInfo list \<Rightarrow> 64 word" where
  "sumBlocks tot [] = tot"
| "sumBlocks tot (entry # rest) = sumBlocks (tot + numBlocks entry) rest"

definition blocksForSize :: "entryInfo \<Rightarrow> 64 word \<Rightarrow> panic + 64 word" where
  "blocksForSize e blockSize =
     (let factor = blockSize div 512 in
      case entryIsDir e of
        Inl p \<Rightarrow> Inl p
      | Inr True \<Rightarrow> udiv (sumBlocks 0 (subEntries e)) factor
      | Inr False \<Rightarrow> udiv (numBlocks e) factor)"


section \<open>Library routines the program calls\<close>

text \<open>
  \<^verbatim>\<open>%d\<close> of \<^verbatim>\<open>fmt\<close>: decimal digits, with a minus sign for a negative \<^verbatim>\<open>int\<close>.
\<close>

definition digit :: "nat \<Rightarrow> char" where
  "digit d = ''0123456789'' ! d"

fun showNat :: "nat \<Rightarrow> string" where
  "showNat n = (if n < 10 then [digit n] else showNat (n div 10) @ [digit (n mod 10)])"

declare showNat.simps [simp del]

definition showInt :: "int \<Rightarrow> string" where
  "showInt i = (if i < 0 then ''-'' @ showNat (nat (- i)) else showNat (nat i))"

definition nl :: string where
  "nl = [CHR 0x0A]"

definition tab :: string where
  "tab = [CHR 0x09]"

text \<open>\<^verbatim>\<open>strings.Join\<close>.\<close>

fun Join :: "string list \<Rightarrow> string \<Rightarrow> string" where
  "Join [] sep = []"
| "Join [x] sep = x"
| "Join (x # y # ys) sep = x @ sep @ Join (y # ys) sep"

text \<open>
  Go compares strings byte by byte, a proper prefix being smaller: the lexicographic
  order on \<^typ>\<open>char list\<close>. \<^verbatim>\<open>sort.Strings\<close> sorts by it. \<^verbatim>\<open>sort.Slice\<close> sorts by the
  \<^verbatim>\<open>less\<close> function it is given, here always the comparison of the keys
  \<^verbatim>\<open>strings.ToLower(name)\<close>, with \<open>lower\<close> standing for \<^verbatim>\<open>strings.ToLower\<close>; it promises a
  sorted permutation and leaves the order of elements with equal keys open, which the
  model fixes to that of an insertion sort.
\<close>

definition sortStrings :: "string list \<Rightarrow> string list" where
  "sortStrings names = sort names"

definition sortSliceLower :: "(string \<Rightarrow> string) \<Rightarrow> ('a \<Rightarrow> string) \<Rightarrow> 'a list \<Rightarrow> 'a list" where
  "sortSliceLower lower name xs = sort_key (\<lambda>x. lower (name x)) xs"

section \<open>The environment\<close>

text \<open>
  A directory entry as \<^verbatim>\<open>os.ReadDir\<close> gives it: its \<^verbatim>\<open>Name()\<close> and the result of its
  \<^verbatim>\<open>Info()\<close>, an error or the file's metadata.
\<close>

record dirEntry =
  DName :: string
  DInfo :: "error + fileInfo"

text \<open>
  Everything the program asks of the operating system and of the Go library:
  \<^verbatim>\<open>os.Stat\<close> (an error or the metadata), \<^verbatim>\<open>os.ReadDir\<close> (the entries read, and an error
  if reading stopped early), \<^verbatim>\<open>user.LookupId\<close> and \<^verbatim>\<open>user.LookupGroupId\<close> (by the
  numeric id, which the program passes in decimal), the year of \<^verbatim>\<open>time.Now()\<close>, the year
  of a time stamp, \<^verbatim>\<open>Time.Format\<close>, whether \<^verbatim>\<open>Flush\<close> of the tab writer fails on the
  text written to it, and \<^verbatim>\<open>strings.ToLower\<close>, the lower-casing of Unicode that the Go
  library does on the bytes of a string; nothing is assumed of it.
\<close>

record world =
  Stat :: "string \<Rightarrow> error + fileInfo"
  ReadDir :: "string \<Rightarrow> dirEntry list \<times> error option"
  LookupId :: "int \<Rightarrow> error + userT"
  LookupGroupId :: "int \<Rightarrow> error + groupT"
  NowYear :: int
  YearOf :: "int \<Rightarrow> int"
  FormatTime :: "string \<Rightarrow> int \<Rightarrow> string"
  Flush :: "string \<Rightarrow> error option"
  ToLower :: "string \<Rightarrow> string"

text \<open>The global \<^verbatim>\<open>config\<close>, filled from the flags \<^verbatim>\<open>--block-size\<close> and \<^verbatim>\<open>-l\<close>.\<close>

record config =
  blockSize :: "64 word"
  formatLongList :: bool

section \<open>fetchEntryInfo\<close>

text \<open>
  Assignments to the fields of \<^verbatim>\<open>entries[i]\<close>. From \<^verbatim>\<open>Stat_t\<close>: \<^verbatim>\<open>int(Nlink)\<close> reads the 64
  bits as signed, \<^verbatim>\<open>uint(Blocks)\<close> keeps the bits, \<^verbatim>\<open>int(Uid)\<close> and \<^verbatim>\<open>int(Gid)\<close> are the
  unsigned values.
\<close>

definition setSys :: "stat_t \<Rightarrow> entryInfo \<Rightarrow> entryInfo" where
  "setSys sysStat e =
     EntryInfo (path e) (FileInfo e) (directRequest e) (sint (Nlink sysStat)) (Blocks sysStat)
       (uint (Uid sysStat)) (uint (Gid sysStat)) (user e) (group e) (subEntries e)"

definition setUser :: "userT option \<Rightarrow> entryInfo \<Rightarrow> entryInfo" where
  "setUser u e =
     EntryInfo (path e) (FileInfo e) (directRequest e) (numLinks e) (numBlocks e) (uID e) (gID e)
       u (group e) (subEntries e)"

definition setGroup :: "groupT option \<Rightarrow> entryInfo \<Rightarrow> entryInfo" where
  "setGroup g e =
     EntryInfo (path e) (FileInfo e) (directRequest e) (numLinks e) (numBlocks e) (uID e) (gID e)
       (user e) g (subEntries e)"

definition setSubEntries :: "entryInfo list \<Rightarrow> entryInfo \<Rightarrow> entryInfo" where
  "setSubEntries subs e =
     EntryInfo (path e) (FileInfo e) (directRequest e) (numLinks e) (numBlocks e) (uID e) (gID e)
       (user e) (group e) subs"

definition setDirectRequest :: "bool \<Rightarrow> entryInfo \<Rightarrow> entryInfo" where
  "setDirectRequest d e =
     EntryInfo (path e) (FileInfo e) d (numLinks e) (numBlocks e) (uID e) (gID e)
       (user e) (group e) (subEntries e)"

text \<open>
  The inner loop over the result of \<^verbatim>\<open>os.ReadDir\<close>: an error of \<^verbatim>\<open>Info()\<close> is appended, and
  the child entry is built in either case, with a nil \<^verbatim>\<open>FileInfo\<close> after an error.
\<close>

fun readChildren :: "dirEntry list \<Rightarrow> error list \<Rightarrow> entryInfo list \<times> error list" where
  "readChildren [] errs = ([], errs)"
| "readChildren (dirEntry # rest) errs =
     (case DInfo dirEntry of
        Inl err \<Rightarrow>
          (case readChildren rest (errs @ [err]) of
             (subs, errs') \<Rightarrow> (newEntryInfo (DName dirEntry) None # subs, errs'))
      | Inr dirInfo \<Rightarrow>
          (case readChildren rest errs of
             (subs, errs') \<Rightarrow> (newEntryInfo (DName dirEntry) (Some dirInfo) # subs, errs')))"

text \<open>The two lookups. After a failed lookup the pointer that is stored is nil.\<close>

definition lookupUser :: "world \<Rightarrow> entryInfo \<Rightarrow> error list \<Rightarrow> entryInfo \<times> error list" where
  "lookupUser w e errs =
     (if uID e \<noteq> - 1 then
        (case LookupId w (uID e) of
           Inl err \<Rightarrow> (setUser None e, errs @ [err])
         | Inr userInfo \<Rightarrow> (setUser (Some userInfo) e, errs))
      else (e, errs))"

definition lookupGroup :: "world \<Rightarrow> entryInfo \<Rightarrow> error list \<Rightarrow> entryInfo \<times> error list" where
  "lookupGroup w e errs =
     (if gID e \<noteq> - 1 then
        (case LookupGroupId w (gID e) of
           Inl err \<Rightarrow> (setGroup None e, errs @ [err])
         | Inr groupInfo \<Rightarrow> (setGroup (Some groupInfo) e, errs))
      else (e, errs))"

text \<open>
  The body of the loop for one entry; \<open>errs\<close> is the local slice of errors. \<open>recur\<close> stands
  for the recursive call \<^verbatim>\<open>fetchEntryInfo(entries[i].subEntries, recurse)\<close>, which updates
  the children in place and returns a list of errors. \<^verbatim>\<open>entries[i].Sys()\<close> panics on a nil
  \<^verbatim>\<open>FileInfo\<close>. The children are read with \<^verbatim>\<open>os.ReadDir(entries[i].path)\<close>, and a child's
  path is its bare name.
\<close>

definition fetchEntry ::
  "world \<Rightarrow> (entryInfo list \<Rightarrow> (panic + entryInfo list \<times> error list) option) \<Rightarrow>
   entryInfo \<Rightarrow> error list \<Rightarrow> (panic + entryInfo \<times> error list) option" where
  "fetchEntry w recur e errs =
     (case FileInfo e of
        None \<Rightarrow> Some (Inl NilDereference)
      | Some fi \<Rightarrow>
          (let e1 = (case Sys fi of Some sysStat \<Rightarrow> setSys sysStat e | None \<Rightarrow> e);
               (e2, errs2) = lookupUser w e1 errs;
               (e3, errs3) = lookupGroup w e2 errs2
           in if IsDir fi then
                (let (dirEntries, rerr) = ReadDir w (path e3);
                     errs4 = (case rerr of Some err \<Rightarrow> errs3 @ [err] | None \<Rightarrow> errs3);
                     (subs, errs5) = readChildren dirEntries errs4
                 in case recur subs of
                      None \<Rightarrow> None
                    | Some (Inl p) \<Rightarrow> Some (Inl p)
                    | Some (Inr (subs', suberrs)) \<Rightarrow>
                        Some (Inr (setSubEntries subs' e3, errs5 @ suberrs)))
              else Some (Inr (e3, errs3))))"

fun fetchLoop ::
  "world \<Rightarrow> (entryInfo list \<Rightarrow> (panic + entryInfo list \<times> error list) option) \<Rightarrow>
   entryInfo list \<Rightarrow> error list \<Rightarrow> (panic + entryInfo list \<times> error list) option" where
  "fetchLoop w recur [] errs = Some (Inr ([], errs))"
| "fetchLoop w recur (e # rest) errs =
     (case fetchEntry w recur e errs of
        None \<Rightarrow> None
      | Some (Inl p) \<Rightarrow> Some (Inl p)
      | Some (Inr (e', errs')) \<Rightarrow>
          (case fetchLoop w recur rest errs' of
             None \<Rightarrow> None
           | Some (Inl p) \<Rightarrow> Some (Inl p)
           | Some (Inr (rest', errs'')) \<Rightarrow> Some (Inr (e' # rest', errs''))))"

text \<open>
  \<^verbatim>\<open>fetchEntryInfo\<close> returns the entries as it has updated them and the list of errors it
  hands back, which is \<^verbatim>\<open>nil\<close> whatever the loop has collected. The recursion follows the
  file system, not the data, and need not end (a directory \<^verbatim>\<open>d\<close> holding an entry
  \<^verbatim>\<open>d\<close> is read again and again, the child's path being \<^verbatim>\<open>d\<close> too): \<open>fuel\<close> bounds its depth,
  and \<open>None\<close> means that the depth did not suffice. The argument \<^verbatim>\<open>recurse\<close> is passed on
  and never tested.
\<close>

primrec fetchEntryInfo ::
  "nat \<Rightarrow> world \<Rightarrow> entryInfo list \<Rightarrow> bool \<Rightarrow> (panic + entryInfo list \<times> error list) option" where
  "fetchEntryInfo 0 w entries recurse = None"
| "fetchEntryInfo (Suc fuel) w entries recurse =
     (case fetchLoop w (\<lambda>subs. fetchEntryInfo fuel w subs recurse) entries [] of
        None \<Rightarrow> None
      | Some (Inl p) \<Rightarrow> Some (Inl p)
      | Some (Inr (entries', errs)) \<Rightarrow> Some (Inr (entries', [])))"

section \<open>Printing\<close>

text \<open>
  The printing functions return the text they write to the writer; a panic ends the
  program, and the text written before it is not kept.
\<close>

definition timeFormat :: string where
  "timeFormat = ''Jan'' @ tab @ ''_2'' @ tab @ ''15:04''"

definition dateFormat :: string where
  "dateFormat = ''Jan'' @ tab @ ''_2'' @ tab @ '' 2006''"

definition printLongEntryInfo :: "world \<Rightarrow> entryInfo \<Rightarrow> panic + string" where
  "printLongEntryInfo w entry =
     (case FileInfo entry of
        None \<Rightarrow> Inl NilDereference
      | Some fi \<Rightarrow>
          (let line = ModeString fi;
               line = line @ tab @ showInt (numLinks entry);
               userName = (case user entry of None \<Rightarrow> ''Unknown'' | Some u \<Rightarrow> Username u);
               line = line @ tab @ userName;
               groupName = (case group entry of None \<Rightarrow> ''Unknown'' | Some g \<Rightarrow> Name g);
               line = line @ tab @ groupName;
               line = line @ tab @ showInt (Size fi);
               modTime = ModTime fi;
               modTimeFormat = (if YearOf w modTime < NowYear w then dateFormat else timeFormat);
               line = line @ tab @ FormatTime w modTimeFormat modTime;
               line = line @ tab @ SafeName entry
           in Inr (line @ nl)))"

text \<open>\<^verbatim>\<open>printLongEntryInfo\<close> for each entry of a slice, in its order.\<close>

fun printLongEntries :: "world \<Rightarrow> entryInfo list \<Rightarrow> panic + string" where
  "printLongEntries w [] = Inr []"
| "printLongEntries w (entry # rest) =
     (case printLongEntryInfo w entry of
        Inl p \<Rightarrow> Inl p
      | Inr line \<Rightarrow>
          (case printLongEntries w rest of
             Inl p \<Rightarrow> Inl p
           | Inr out \<Rightarrow> Inr (line @ out)))"

text \<open>
  The first loop of \<^verbatim>\<open>printEntries\<close>: the directly requested plain files, and the other
  entries. \<^verbatim>\<open>entry.IsDir()\<close> is evaluated only for a direct request (\<^verbatim>\<open>&&\<close>).
\<close>

fun partitionEntries :: "entryInfo list \<Rightarrow> panic + entryInfo list \<times> entryInfo list" where
  "partitionEntries [] = Inr ([], [])"
| "partitionEntries (entry # rest) =
     (case (if directRequest entry then entryIsDir entry else Inr True) of
        Inl p \<Rightarrow> Inl p
      | Inr isDir \<Rightarrow>
          (case partitionEntries rest of
             Inl p \<Rightarrow> Inl p
           | Inr (directFileEntries, otherEntries) \<Rightarrow>
               if directRequest entry \<and> \<not> isDir
               then Inr (entry # directFileEntries, otherEntries)
               else Inr (directFileEntries, entry # otherEntries)))"

text \<open>The first \<^verbatim>\<open>switch\<close> of \<^verbatim>\<open>printEntries\<close>, on the directly requested plain files.\<close>

definition printDirect :: "config \<Rightarrow> world \<Rightarrow> entryInfo list \<Rightarrow> panic + string" where
  "printDirect cfg w directFileEntries =
     (let directFileNames = map SafeName directFileEntries in
      if \<not> formatLongList cfg \<and> 0 < length directFileNames
      then Inr (Join (sortStrings directFileNames) (tab @ tab @ tab) @ nl)
      else if formatLongList cfg then printLongEntries w directFileEntries
      else Inr [])"

text \<open>
  The body of the loop over the other entries, up to the recursive call: the blank line
  from the second entry on, the header when \<^verbatim>\<open>len(entries) > 1\<close> (\<open>n\<close> is that length, \<open>i\<close>
  the index), and the listing. In long mode \<^verbatim>\<open>sort.Slice\<close> sorts \<^verbatim>\<open>entry.subEntries\<close> in
  place, so the recursive call sees the children sorted; in short mode only the copied
  names are sorted.
\<close>

definition sortedSubEntries :: "config \<Rightarrow> world \<Rightarrow> entryInfo \<Rightarrow> entryInfo list" where
  "sortedSubEntries cfg w entry =
     (if formatLongList cfg then sortSliceLower (ToLower w) path (subEntries entry)
      else subEntries entry)"

definition printListing :: "config \<Rightarrow> world \<Rightarrow> nat \<Rightarrow> nat \<Rightarrow> entryInfo \<Rightarrow> panic + string" where
  "printListing cfg w n i entry =
     (let out = (if 0 < i then nl else []);
          out = out @ (if 1 < n then SafeName entry @ '':'' @ nl else [])
      in if formatLongList cfg then
           (case blocksForSize entry (blockSize cfg) of
              Inl p \<Rightarrow> Inl p
            | Inr blocks \<Rightarrow>
                (case printLongEntries w (sortedSubEntries cfg w entry) of
                   Inl p \<Rightarrow> Inl p
                 | Inr rows \<Rightarrow> Inr (out @ ''total '' @ showNat (unat blocks) @ nl @ rows)))
         else
           (let subFileNames = map SafeName (subEntries entry) in
            if 0 < length subFileNames
            then Inr (out @ Join (sortSliceLower (ToLower w) id subFileNames) (tab @ tab @ tab) @ nl)
            else Inr out))"

text \<open>\<^verbatim>\<open>printEntries\<close> and its loop over the other entries, with the index \<open>i\<close>.\<close>

function printEntries :: "config \<Rightarrow> world \<Rightarrow> entryInfo list \<Rightarrow> bool \<Rightarrow> panic + string"
  and printOthers :: "config \<Rightarrow> world \<Rightarrow> nat \<Rightarrow> nat \<Rightarrow> entryInfo list \<Rightarrow> bool \<Rightarrow> panic + string"
where
  "printEntries cfg w entries recurse =
     (case partitionEntries entries of
        Inl p \<Rightarrow> Inl p
      | Inr (directFileEntries, otherEntries) \<Rightarrow>
          (case printDirect cfg w directFileEntries of
             Inl p \<Rightarrow> Inl p
           | Inr out \<Rightarrow>
               (case printOthers cfg w (length entries) 0 otherEntries recurse of
                  Inl p \<Rightarrow> Inl p
                | Inr out' \<Rightarrow> Inr (out @ out'))))"
| "printOthers cfg w n i [] recurse = Inr []"
| "printOthers cfg w n i (entry # rest) recurse =
     (case printListing cfg w n i entry of
        Inl p \<Rightarrow> Inl p
      | Inr out \<Rightarrow>
          (case (if recurse then printEntries cfg w (sortedSubEntries cfg w entry) recurse else Inr []) of
             Inl p \<Rightarrow> Inl p
           | Inr sub \<Rightarrow>
               (case printOthers cfg w n (Suc i) rest recurse of
                  Inl p \<Rightarrow> Inl p
                | Inr out' \<Rightarrow> Inr (out @ sub @ out'))))"
  by pat_completeness auto
termination
proof (relation "measure (\<lambda>x. case x of
            Inl (cfg, w, entries, recurse) \<Rightarrow> 2 * size_list size entries + 1
          | Inr (cfg, w, n, i, others, recurse) \<Rightarrow> 2 * size_list size others)", goal_cases)
  case 1
  show ?case by simp
next
  case (2 cfg w entries recurse x2 directFileEntries otherEntries out)
  have "partitionEntries es = Inr (ds, os) \<Longrightarrow> size_list size os \<le> size_list size es"
    for es ds os
    by (induction es arbitrary: ds os) (auto split: sum.splits if_splits)
  from this [of entries directFileEntries otherEntries] 2 show ?case
    by simp
next
  case (3 cfg w n i entry rest recurse out)
  have ins: "size_list g (insort_key f x xs) = size_list g (x # xs)"
    for g :: "entryInfo \<Rightarrow> nat" and f :: "entryInfo \<Rightarrow> string" and x xs
    by (induction xs) simp_all
  have "size_list g (sort_key f xs) = size_list g xs"
    for g :: "entryInfo \<Rightarrow> nat" and f :: "entryInfo \<Rightarrow> string" and xs
    by (induction xs) (simp_all add: ins)
  then have "size_list size (sortedSubEntries cfg w entry) < size entry"
    by (cases entry) (simp add: sortedSubEntries_def sortSliceLower_def)
  then show ?case by simp
next
  case 4
  then show ?case by simp
qed

section \<open>Errors and the main program of ls\<close>

definition formatError :: "error \<Rightarrow> string" where
  "formatError err =
     (case err of
        PathError opn pth underlying \<Rightarrow> ''cannot access '' @ [CHR 0x27] @ pth @ [CHR 0x27] @ '': '' @ underlying
      | OtherError msg \<Rightarrow> msg)"

fun printErrors :: "error list \<Rightarrow> string" where
  "printErrors [] = []"
| "printErrors (err # errs) = formatError err @ nl @ printErrors errs"

text \<open>The first loop of \<^verbatim>\<open>main\<close>, over the paths of the command line.\<close>

fun statPaths :: "world \<Rightarrow> string list \<Rightarrow> entryInfo list \<Rightarrow> error list \<Rightarrow> entryInfo list \<times> error list" where
  "statPaths w [] entries errs = (entries, errs)"
| "statPaths w (p # rest) entries errs =
     (case Stat w p of
        Inl err \<Rightarrow> statPaths w rest entries (errs @ [err])
      | Inr info \<Rightarrow>
          statPaths w rest (entries @ [setDirectRequest True (newEntryInfo p (Some info))]) errs)"

text \<open>
  What a run leaves behind: the text written to the tab writer (which aligns its columns
  and passes it on to standard output), the text written to standard error, and the exit
  status.
\<close>

record outcome =
  Written :: string
  Stderr :: string
  ExitStatus :: int

text \<open>
  \<^verbatim>\<open>main\<close> of ls. A run that returns from \<^verbatim>\<open>main\<close> ends with status 0. A panic is kept
  apart as \<open>Inl\<close>, and \<open>None\<close> is a fetch pass that did not end within \<open>fuel\<close>.
\<close>

definition ls_main :: "nat \<Rightarrow> config \<Rightarrow> world \<Rightarrow> string list \<Rightarrow> (panic + outcome) option" where
  "ls_main fuel cfg w paths =
     (let (entries, errs) = statPaths w paths [] [] in
      case fetchEntryInfo fuel w entries False of
        None \<Rightarrow> None
      | Some (Inl p) \<Rightarrow> Some (Inl p)
      | Some (Inr (entries', fetchErrs)) \<Rightarrow>
          (let errs = errs @ fetchErrs;
               stderr = (if 0 < length errs then printErrors errs else [])
           in case printEntries cfg w entries' False of
                Inl p \<Rightarrow> Some (Inl p)
              | Inr out \<Rightarrow>
                  (let (errs, stderr) =
                         (case Flush w out of
                            Some err \<Rightarrow> (errs @ [err], stderr @ printErrors [err])
                          | None \<Rightarrow> (errs, stderr))
                   in Some (Inr \<lparr>Written = out, Stderr = stderr,
                                  ExitStatus = (if 0 < length errs then 2 else 0)\<rparr>))))"

section \<open>cmd/whoami\<close>

text \<open>
  \<^verbatim>\<open>main\<close> of whoami, given the result of \<^verbatim>\<open>user.Current()\<close> and the effective user id
  of \<^verbatim>\<open>os.Geteuid()\<close>. The message on standard error has no newline.
\<close>

definition whoami_main :: "error + userT \<Rightarrow> int \<Rightarrow> string \<times> string \<times> int" where
  "whoami_main current euid =
     (case current of
        Inl err \<Rightarrow> ([], ''cannot find name for user ID '' @ showInt euid, 1)
      | Inr usr \<Rightarrow> (Username usr @ nl, [], 0))"

section \<open>Entries before and after the fetch\<close>

text \<open>
  An entry as \<^verbatim>\<open>newEntryInfo\<close> leaves it (whatever its path, metadata and
  \<^verbatim>\<open>directRequest\<close>): no user, no group, both ids unknown, no children.
\<close>

definition fresh :: "entryInfo \<Rightarrow> bool" where
  "fresh e \<longleftrightarrow> user e = None \<and> group e = None \<and> uID e = - 1 \<and> gID e = - 1 \<and> subEntries e = []"

text \<open>
  The account a file's metadata leads to: none when \<^verbatim>\<open>Sys()\<close> is not a
  \<^verbatim>\<open>*syscall.Stat_t\<close> or the lookup of the numeric id fails. An entry is resolved when it
  has its metadata and its \<^verbatim>\<open>user\<close> and \<^verbatim>\<open>group\<close> are these accounts.
\<close>

definition ownerOf :: "world \<Rightarrow> fileInfo \<Rightarrow> userT option" where
  "ownerOf w fi =
     (case Sys fi of
        None \<Rightarrow> None
      | Some st \<Rightarrow> (case LookupId w (uint (Uid st)) of Inl err \<Rightarrow> None | Inr u \<Rightarrow> Some u))"

definition groupOf :: "world \<Rightarrow> fileInfo \<Rightarrow> groupT option" where
  "groupOf w fi =
     (case Sys fi of
        None \<Rightarrow> None
      | Some st \<Rightarrow> (case LookupGroupId w (uint (Gid st)) of Inl err \<Rightarrow> None | Inr g \<Rightarrow> Some g))"

definition resolved :: "world \<Rightarrow> entryInfo \<Rightarrow> bool" where
  "resolved w e \<longleftrightarrow>
     (case FileInfo e of
        None \<Rightarrow> False
      | Some fi \<Rightarrow> user e = ownerOf w fi \<and> group e = groupOf w fi)"

section \<open>A sample environment\<close>

text \<open>
  A small file system and account database on which the programs are run below. The
  working directory holds the plain files \<^verbatim>\<open>foo.txt\<close>, \<^verbatim>\<open>Banana\<close>, \<^verbatim>\<open>apple\<close> and \<^verbatim>\<open>orphan\<close>
  and the directories \<^verbatim>\<open>d\<close> (holding \<^verbatim>\<open>b.txt\<close> and \<^verbatim>\<open>A.txt\<close>), \<^verbatim>\<open>fruit\<close> (holding \<^verbatim>\<open>Banana\<close>
  and \<^verbatim>\<open>apple\<close>) and \<^verbatim>\<open>gone\<close> (holding \<^verbatim>\<open>x\<close>, which is removed before its \<^verbatim>\<open>Info()\<close> is
  asked for). User 1000 is \<^verbatim>\<open>alice\<close> and group 100 is \<^verbatim>\<open>users\<close>; \<^verbatim>\<open>orphan\<close> belongs to
  user 4242, who has no account. Nothing else exists. All files are older than the
  current year, and \<^verbatim>\<open>Time.Format\<close> is left as the layout it is given.
\<close>

text \<open>
  All names of the sample are ASCII, and on ASCII \<^verbatim>\<open>strings.ToLower\<close> maps the letters
  \<^verbatim>\<open>A\<close> to \<^verbatim>\<open>Z\<close> to \<^verbatim>\<open>a\<close> to \<^verbatim>\<open>z\<close> and leaves the other bytes as they are. The sample
  environment lower-cases so; it is used on ASCII names only.
\<close>

definition lowerChar :: "char \<Rightarrow> char" where
  "lowerChar c =
     (case map_of (zip ''ABCDEFGHIJKLMNOPQRSTUVWXYZ'' ''abcdefghijklmnopqrstuvwxyz'') c of
        Some l \<Rightarrow> l
      | None \<Rightarrow> c)"

definition asciiLower :: "string \<Rightarrow> string" where
  "asciiLower s = map lowerChar s"

definition sampleStat :: "32 word \<Rightarrow> 64 word \<Rightarrow> stat_t" where
  "sampleStat uid blocks = \<lparr>Nlink = 1, Blocks = blocks, Uid = uid, Gid = 100\<rparr>"

definition fileOf :: "32 word \<Rightarrow> 64 word \<Rightarrow> fileInfo" where
  "fileOf uid blocks =
     \<lparr>IsDir = False, Size = 5, ModeString = ''-rw-r--r--'', ModTime = 0,
      Sys = Some (sampleStat uid blocks)\<rparr>"

definition dirOf :: "32 word \<Rightarrow> fileInfo" where
  "dirOf uid =
     \<lparr>IsDir = True, Size = 4096, ModeString = ''drwxr-xr-x'', ModTime = 0,
      Sys = Some (sampleStat uid 8)\<rparr>"

definition notFound :: "string \<Rightarrow> string \<Rightarrow> error" where
  "notFound opn p = PathError opn p ''no such file or directory''"

definition sampleWorld :: world where
  "sampleWorld =
     \<lparr>Stat = (\<lambda>p.
          if p = ''foo.txt'' \<or> p = ''Banana'' \<or> p = ''apple'' then Inr (fileOf 1000 2)
          else if p = ''orphan'' then Inr (fileOf 4242 2)
          else if p = ''d'' \<or> p = ''gone'' \<or> p = ''fruit'' then Inr (dirOf 1000)
          else Inl (notFound ''stat'' p)),
      ReadDir = (\<lambda>p.
          if p = ''d'' then ([\<lparr>DName = ''b.txt'', DInfo = Inr (fileOf 1000 2)\<rparr>,
                               \<lparr>DName = ''A.txt'', DInfo = Inr (fileOf 1000 4)\<rparr>], None)
          else if p = ''fruit'' then ([\<lparr>DName = ''Banana'', DInfo = Inr (fileOf 1000 2)\<rparr>,
                                   \<lparr>DName = ''apple'', DInfo = Inr (fileOf 1000 2)\<rparr>], None)
          else if p = ''gone'' then ([\<lparr>DName = ''x'', DInfo = Inl (notFound ''lstat'' ''gone/x'')\<rparr>], None)
          else ([], Some (notFound ''open'' p))),
      LookupId = (\<lambda>uid. if uid = 1000 then Inr \<lparr>Username = ''alice''\<rparr>
                         else Inl (OtherError (''user: unknown userid '' @ showInt uid))),
      LookupGroupId = (\<lambda>gid. if gid = 100 then Inr \<lparr>Name = ''users''\<rparr>
                         else Inl (OtherError (''group: unknown groupid '' @ showInt gid))),
      NowYear = 2024,
      YearOf = (\<lambda>t. 1970),
      FormatTime = (\<lambda>fmt t. fmt),
      Flush = (\<lambda>out. None),
      ToLower = asciiLower\<rparr>"

text \<open>
  A second file system, with the same accounts: the working directory holds nothing but
  the directory \<^verbatim>\<open>b\<close>, which holds the plain file \<^verbatim>\<open>c\<close>.
\<close>

definition nestedWorld :: world where
  "nestedWorld =
     sampleWorld
       \<lparr>Stat := (\<lambda>p. if p = ''.'' \<or> p = ''b'' then Inr (dirOf 1000) else Inl (notFound ''stat'' p)),
        ReadDir := (\<lambda>p.
          if p = ''.'' then ([\<lparr>DName = ''b'', DInfo = Inr (dirOf 1000)\<rparr>], None)
          else if p = ''b'' then ([\<lparr>DName = ''c'', DInfo = Inr (fileOf 1000 2)\<rparr>], None)
          else ([], Some (notFound ''open'' p)))\<rparr>"

text \<open>
  The sample file system with another account database: the account of user 1000 is
  named \<^verbatim>\<open>1000\<close>, and the name of group 100 is empty.
\<close>

definition numericWorld :: world where
  "numericWorld =
     sampleWorld
       \<lparr>LookupId := (\<lambda>uid. if uid = 1000 then Inr \<lparr>Username = ''1000''\<rparr>
                         else Inl (OtherError (''user: unknown userid '' @ showInt uid))),
        LookupGroupId := (\<lambda>gid. if gid = 100 then Inr \<lparr>Name = []\<rparr>
                         else Inl (OtherError (''group: unknown groupid '' @ showInt gid)))\<rparr>"

text \<open>
  A third one: the working directory holds the directory \<^verbatim>\<open>d\<close>, which holds a directory
  named \<^verbatim>\<open>d\<close> again.
\<close>

definition loopWorld :: world where
  "loopWorld =
     sampleWorld
       \<lparr>Stat := (\<lambda>p. if p = ''d'' then Inr (dirOf 1000) else Inl (notFound ''stat'' p)),
        ReadDir := (\<lambda>p.
          if p = ''d'' then ([\<lparr>DName = ''d'', DInfo = Inr (dirOf 1000)\<rparr>], None)
          else ([], Some (notFound ''open'' p)))\<rparr>"

definition shortCfg :: config where
  "shortCfg = \<lparr>blockSize = 1024, formatLongList = False\<rparr>"

definition longCfg :: config where
  "longCfg = \<lparr>blockSize = 1024, formatLongList = True\<rparr>"

text \<open>The root entries \<^verbatim>\<open>main\<close> builds for a command line, and a directory entry with two
  children of 2 and 4 blocks.\<close>

definition rootsOf :: "string list \<Rightarrow> entryInfo list" where
  "rootsOf paths = fst (statPaths sampleWorld paths [] [])"

definition evenDir :: entryInfo where
  "evenDir =
     EntryInfo ''d'' (Some (dirOf 1000)) True 1 8 1000 100 None None
       [EntryInfo ''b.txt'' (Some (fileOf 1000 2)) False 1 2 1000 100 None None [],
        EntryInfo ''A.txt'' (Some (fileOf 1000 4)) False 1 4 1000 100 None None []]"

section \<open>Evaluation and arithmetic lemmas\<close>

lemmas sample_defs =
  nestedWorld_def sampleWorld_def fileOf_def dirOf_def sampleStat_def notFound_def shortCfg_def
  longCfg_def
  rootsOf_def evenDir_def

lemmas entry_defs =
  newEntryInfo_def setDirectRequest_def setSys_def setUser_def setGroup_def setSubEntries_def
  entryIsDir_def SafeName_def

lemmas fetch_defs = fetchEntry_def lookupUser_def lookupGroup_def

lemma showNat_digit [simp]: "n < 10 \<Longrightarrow> showNat n = [digit n]"
  by (simp add: showNat.simps)

lemma factor_zero: "(b :: 64 word) div 512 = 0 \<longleftrightarrow> b < 512"
proof -
  have "(b div 512 = 0) \<longleftrightarrow> unat (b div 512) = 0"
    by (simp add: unat_eq_zero)
  also have "\<dots> \<longleftrightarrow> unat b div 512 = 0"
    by (simp add: unat_div)
  also have "\<dots> \<longleftrightarrow> unat b < 512"
    by (simp add: div_eq_0_iff)
  also have "\<dots> \<longleftrightarrow> b < 512"
    by (simp add: word_less_nat_alt)
  finally show ?thesis .
qed

lemma unat_dbl:
  fixes b :: "64 word"
  assumes "unat b < 2 ^ 63"
  shows "unat (2 * b) = 2 * unat b"
proof -
  have "unat (2::64 word) * unat b < 2 ^ LENGTH(64)"
    using assms by simp
  then have "unat (2 * b) = unat (2::64 word) * unat b"
    by (simp only: unat_mult_lem)
  then show ?thesis by simp
qed

lemma unat_factor: "unat ((b :: 64 word) div 512) = unat b div 512"
  by (simp add: unat_div)

lemma nat_dbl_div:
  fixes x :: nat
  assumes "x mod 512 < 256"
  shows "(2 * x) div 512 = 2 * (x div 512)"
proof (rule div_nat_eqI)
  define q where "q = x div 512"
  define r where "r = x mod 512"
  have x: "x = 512 * q + r"
    unfolding q_def r_def by simp
  have r: "r < 256" using assms unfolding r_def .
  show "512 * (2 * (x div 512)) \<le> 2 * x"
    unfolding q_def [symmetric] using x by linarith
  show "2 * x < 512 * Suc (2 * (x div 512))"
    unfolding q_def [symmetric] using x r by simp
qed

lemma factor_dbl:
  fixes b :: "64 word"
  assumes "b < 2 ^ 63" "b mod 512 < 256"
  shows "(2 * b) div 512 = 2 * (b div 512)"
proof -
  have b: "unat b < 2 ^ 63"
    using assms(1) by (simp add: word_less_nat_alt)
  have m: "unat b mod 512 < 256"
    using assms(2) by (simp add: word_less_nat_alt unat_mod)
  have f: "unat (b div 512) < 2 ^ 63"
    using b unfolding unat_factor by simp
  have "unat ((2 * b) div 512) = (2 * unat b) div 512"
    unfolding unat_factor unat_dbl [OF b] ..
  also have "\<dots> = 2 * (unat b div 512)"
    by (rule nat_dbl_div [OF m])
  also have "\<dots> = unat (2 * (b div 512))"
    unfolding unat_dbl [OF f] unat_factor ..
  finally show ?thesis
    by (simp only: word_unat_eq_iff)
qed

lemma div_dbl:
  fixes t f :: "64 word"
  assumes f: "unat f < 2 ^ 63"
  shows "t div (2 * f) = (t div f) div 2"
proof -
  have "unat (t div (2 * f)) = unat t div (unat f * 2)"
    unfolding unat_div unat_dbl [OF f] by (simp only: mult.commute)
  also have "\<dots> = unat t div unat f div 2"
    by (simp only: div_mult2_eq)
  also have "\<dots> = unat ((t div f) div 2)"
    by (simp add: unat_div)
  finally show ?thesis
    by (simp only: word_unat_eq_iff)
qed

lemma udiv_factor_dbl:
  fixes b t :: "64 word"
  assumes "512 \<le> b" "b < 2 ^ 63" "b mod 512 < 256"
  shows "udiv t ((2 * b) div 512) = Inr ((t div (b div 512)) div 2)"
    and "udiv t (b div 512) = Inr (t div (b div 512))"
proof -
  have b: "unat b < 2 ^ 63"
    using assms(2) by (simp add: word_less_nat_alt)
  have f: "unat (b div 512) < 2 ^ 63"
    using b unfolding unat_factor by simp
  have nz: "b div 512 \<noteq> 0"
    using assms(1) by (simp add: factor_zero not_less)
  then have "unat (b div 512) \<noteq> 0"
    by (simp only: unat_eq_zero not_False_eq_True)
  then have "unat (2 * (b div 512)) \<noteq> 0"
    unfolding unat_dbl [OF f] by simp
  then have nz2: "2 * (b div 512) \<noteq> 0"
    by (simp only: unat_eq_zero not_False_eq_True)
  show "udiv t ((2 * b) div 512) = Inr ((t div (b div 512)) div 2)"
    unfolding factor_dbl [OF assms(2,3)] udiv_def using nz2 div_dbl [OF f, of t] by simp
  show "udiv t (b div 512) = Inr (t div (b div 512))"
    unfolding udiv_def using nz by simp
qed

section \<open>The block count in units of the block size\<close>

text \<open>
  C4. \<^verbatim>\<open>blocksForSize\<close> divides by \<^verbatim>\<open>blockSize / 512\<close> with no guard. For every entry that
  has its metadata, the call panics with a division by zero exactly when the block size
  is below 512 (every such value, 0 included, is a block size the flag accepts), and it
  returns a count exactly when the block size is at least 512.
\<close>

theorem blocksForSize_divide_by_zero_iff:
  assumes "FileInfo e = Some fi"
  shows "(blocksForSize e bs = Inl DivideByZero \<longleftrightarrow> bs < 512) \<and>
         ((\<exists>n. blocksForSize e bs = Inr n) \<longleftrightarrow> 512 \<le> bs)"
  using assms
  by (auto simp add: blocksForSize_def entryIsDir_def Let_def udiv_def factor_zero not_less
      split: bool.splits)

theorem blocksForSize_divide_by_zero_iff_witness:
  "FileInfo evenDir = Some (dirOf 1000) \<and>
   blocksForSize evenDir 0 = Inl DivideByZero \<and>
   blocksForSize evenDir 511 = Inl DivideByZero \<and>
   blocksForSize evenDir 512 \<noteq> Inl DivideByZero \<and>
   (\<exists>n. blocksForSize evenDir 1024 = Inr n)"
proof -
  have fi: "FileInfo evenDir = Some (dirOf 1000)"
    by (simp add: evenDir_def)
  show ?thesis
    using fi
      blocksForSize_divide_by_zero_iff [OF fi, of 0]
      blocksForSize_divide_by_zero_iff [OF fi, of 511]
      blocksForSize_divide_by_zero_iff [OF fi, of 512]
      blocksForSize_divide_by_zero_iff [OF fi, of 1024]
    by simp
qed

text \<open>
  C5, as the specification states it, fails: with a block size of 768 the factor is 1,
  with 1536 it is 3. The directory \<open>evenDir\<close> has children of 2 and 4 blocks, so its total
  is 6 at block size 768 and 2, not 3, at block size 1536.
\<close>

theorem blocksForSize_doubling_counterexample:
  "blocksForSize evenDir 768 = Inr 6 \<and> blocksForSize evenDir (768 * 2) = Inr 2 \<and>
   (6 :: 64 word) div 2 \<noteq> 2"
  by (simp add: blocksForSize_def entryIsDir_def evenDir_def dirOf_def udiv_def)

text \<open>
  C5, amended. For every entry that has its metadata and every block size \<open>b\<close> with
  \<open>512 \<le> b < 2^63\<close> and \<open>b mod 512 < 256\<close> (every multiple of 512 from 512 up to
  \<open>2^63 - 512\<close> among them), \<^verbatim>\<open>blocksForSize\<close> returns at \<open>b\<close> and at \<open>2 * b\<close>, and the
  count at \<open>2 * b\<close> is the count at \<open>b\<close> divided by 2. The block counts need not be even.
\<close>

theorem blocksForSize_doubling:
  assumes "FileInfo e = Some fi"
    and "512 \<le> bs" "bs < 2 ^ 63" "bs mod 512 < 256"
  shows "\<exists>n. blocksForSize e bs = Inr n \<and> blocksForSize e (bs * 2) = Inr (n div 2)"
  using assms(1) udiv_factor_dbl [OF assms(2,3,4)]
  by (simp add: blocksForSize_def entryIsDir_def Let_def mult.commute split: bool.splits)

theorem blocksForSize_doubling_witness:
  "FileInfo evenDir = Some (dirOf 1000) \<and> (512 :: 64 word) \<le> 1024 \<and> (1024 :: 64 word) < 2 ^ 63 \<and>
   (1024 :: 64 word) mod 512 < 256 \<and>
   (\<exists>n. blocksForSize evenDir 1024 = Inr n \<and> blocksForSize evenDir (1024 * 2) = Inr (n div 2))"
proof -
  have fi: "FileInfo evenDir = Some (dirOf 1000)"
    by (simp add: evenDir_def)
  have h1: "(512 :: 64 word) \<le> 1024" by simp
  have h2: "(1024 :: 64 word) < 2 ^ 63" by simp
  have h3: "(1024 :: 64 word) mod 512 < 256" by simp
  show ?thesis
    using fi h1 h2 h3 blocksForSize_doubling [OF fi h1 h2 h3] by simp
qed

section \<open>whoami\<close>

text \<open>
  C10. When the lookup of the current user succeeds, whoami prints the user name and a
  newline on standard output and ends with status 0. When it fails, whoami prints
  \<^verbatim>\<open>cannot find name for user ID\<close> and the effective user id in decimal on standard
  error, prints nothing on standard output and ends with status 1; the lookup is made
  once. For the user id 1000 the message is \<^verbatim>\<open>cannot find name for user ID 1000\<close>.
\<close>

theorem whoami_main_behaviour:
  "whoami_main (Inr usr) euid = (Username usr @ nl, [], 0) \<and>
   whoami_main (Inl err) euid = ([], ''cannot find name for user ID '' @ showInt euid, 1) \<and>
   whoami_main (Inl err) 1000 = ([], ''cannot find name for user ID 1000'', 1)"
  by (simp add: whoami_main_def showInt_def showNat.simps [of 1000] showNat.simps [of 100]
      showNat.simps [of 10] digit_def)

section \<open>What fetchEntryInfo returns\<close>

lemma fetchEntryInfo_returns_nil:
  "fetchEntryInfo fuel w entries recurse = Some (Inr (entries', errs)) \<Longrightarrow> errs = []"
  by (cases fuel) (auto split: option.splits sum.splits prod.splits)

lemma fetchLoop_recurse_cong:
  assumes "\<And>subs. f subs = g subs"
  shows "fetchLoop w f entries errs = fetchLoop w g entries errs"
proof -
  have "f = g"
    by (rule ext) (rule assms)
  then show ?thesis by simp
qed

lemma fetchEntryInfo_ignores_recurse:
  "fetchEntryInfo fuel w entries True = fetchEntryInfo fuel w entries False"
proof (induction fuel arbitrary: entries)
  case 0
  show ?case by simp
next
  case (Suc fuel)
  have "fetchLoop w (\<lambda>subs. fetchEntryInfo fuel w subs True) entries [] =
        fetchLoop w (\<lambda>subs. fetchEntryInfo fuel w subs False) entries []"
    by (rule fetchLoop_recurse_cong) (rule Suc.IH)
  then show ?case by simp
qed

lemma fetchEntryInfo_numeral [simp]:
  "fetchEntryInfo (numeral k) w entries recurse =
     (case fetchLoop w (\<lambda>subs. fetchEntryInfo (pred_numeral k) w subs recurse) entries [] of
        None \<Rightarrow> None
      | Some (Inl p) \<Rightarrow> Some (Inl p)
      | Some (Inr (entries', errs)) \<Rightarrow> Some (Inr (entries', [])))"
  by (simp add: numeral_eq_Suc)

lemma rootsOf_orphan:
  "rootsOf [''orphan''] = [EntryInfo ''orphan'' (Some (fileOf 4242 2)) True 0 0 (- 1) (- 1) None None []]"
  by (simp add: sample_defs entry_defs)

text \<open>
  C1 fails on the code: \<^verbatim>\<open>fetchEntryInfo\<close> ends with \<^verbatim>\<open>return nil\<close>, so the failures its
  loop has collected never reach the caller. For the file \<^verbatim>\<open>orphan\<close>, whose owner has no
  account, the loop collects the lookup error and goes on to the group, but the function
  returns the empty list.
\<close>

theorem fetchEntryInfo_loses_lookup_error:
  "fetchLoop sampleWorld (\<lambda>subs. fetchEntryInfo 0 sampleWorld subs False) (rootsOf [''orphan'']) [] =
     Some (Inr ([EntryInfo ''orphan'' (Some (fileOf 4242 2)) True 1 2 4242 100 None
                   (Some \<lparr>Name = ''users''\<rparr>) []],
                [OtherError ''user: unknown userid 4242''])) \<and>
   fetchEntryInfo 1 sampleWorld (rootsOf [''orphan'']) False =
     Some (Inr ([EntryInfo ''orphan'' (Some (fileOf 4242 2)) True 1 2 4242 100 None
                   (Some \<lparr>Name = ''users''\<rparr>) []],
                []))"
  by (simp add: sample_defs entry_defs fetch_defs showInt_def showNat.simps [of 4242]
      showNat.simps [of 424] showNat.simps [of 42] digit_def)

text \<open>
  C2 fails on the code, from the same \<^verbatim>\<open>return nil\<close>: listing \<^verbatim>\<open>orphan\<close> meets an
  id-lookup failure, yet nothing is printed on standard error and the exit status is 0.
\<close>

theorem ls_main_exit_0_despite_lookup_error:
  "LookupId sampleWorld 4242 = Inl (OtherError ''user: unknown userid 4242'') \<and>
   ls_main 1 shortCfg sampleWorld [''orphan''] =
     Some (Inr \<lparr>Written = ''orphan'' @ nl, Stderr = [], ExitStatus = 0\<rparr>)"
  by (simp add: ls_main_def sample_defs entry_defs fetch_defs printDirect_def sortStrings_def
      showInt_def showNat.simps [of 4242] showNat.simps [of 424] showNat.simps [of 42] digit_def)

text \<open>
  C3 fails on the code for directory children: when \<^verbatim>\<open>Info()\<close> of a child fails, the
  error is appended but the child entry is still built, with a nil \<^verbatim>\<open>FileInfo\<close>, and the
  recursive call then calls \<^verbatim>\<open>Sys()\<close> on it, which panics. (The loop of \<^verbatim>\<open>main\<close> over the
  command line does skip a path whose \<^verbatim>\<open>Stat\<close> failed.)
\<close>

theorem fetchEntryInfo_keeps_child_without_fileInfo:
  "readChildren (fst (ReadDir sampleWorld ''gone'')) [] =
     ([newEntryInfo ''x'' None], [notFound ''lstat'' ''gone/x'']) \<and>
   fetchEntryInfo 2 sampleWorld (rootsOf [''gone'']) False = Some (Inl NilDereference) \<and>
   ls_main 2 shortCfg sampleWorld [''gone''] = Some (Inl NilDereference)"
  by (simp add: ls_main_def sample_defs entry_defs fetch_defs)

text \<open>
  C6 fails on the code: \<^verbatim>\<open>fetchEntryInfo\<close> never tests its \<^verbatim>\<open>recurse\<close> argument and calls
  itself on the children of every directory. Called on \<^verbatim>\<open>.\<close> with \<^verbatim>\<open>recurse = false\<close>, in a
  working directory that holds the directory \<^verbatim>\<open>b\<close> with the file \<^verbatim>\<open>c\<close>, it reads the child
  directory \<^verbatim>\<open>b\<close> and fetches the grandchild \<^verbatim>\<open>c\<close>; a recursion depth of 2, enough for one
  level of children, does not suffice.
\<close>

theorem fetchEntryInfo_reads_grandchildren:
  "(case fetchEntryInfo 3 nestedWorld (fst (statPaths nestedWorld [''.''] [] [])) False of
      Some (Inr (entries, errs)) \<Rightarrow>
        map (\<lambda>e. (path e, map (\<lambda>c. (path c, map path (subEntries c))) (subEntries e))) entries
    | _ \<Rightarrow> []) = [(''.'', [(''b'', [''c''])])] \<and>
   fetchEntryInfo 2 nestedWorld (fst (statPaths nestedWorld [''.''] [] [])) False = None"
  by (simp add: sample_defs entry_defs fetch_defs)


text \<open>
  C8, as the specification states it, fails twice. The header depends on the number of
  entries whose \<^verbatim>\<open>Stat\<close> succeeded, not on the number of paths given: with the two paths
  \<^verbatim>\<open>missing\<close> and \<^verbatim>\<open>d\<close> the directory \<^verbatim>\<open>d\<close> is listed without its \<^verbatim>\<open>d:\<close> line. And no
  blank line separates the block of the plain files from the first directory: with the
  paths \<^verbatim>\<open>foo.txt\<close> and \<^verbatim>\<open>d\<close> the line \<^verbatim>\<open>d:\<close> follows the line \<^verbatim>\<open>foo.txt\<close> at once.
\<close>

theorem root_sections_counterexample:
  "ls_main 2 shortCfg sampleWorld [''missing'', ''d''] =
     Some (Inr \<lparr>Written = ''A.txt'' @ tab @ tab @ tab @ ''b.txt'' @ nl,
                Stderr = ''cannot access '' @ [CHR 0x27] @ ''missing'' @ [CHR 0x27] @
                         '': no such file or directory'' @ nl,
                ExitStatus = 2\<rparr>) \<and>
   ls_main 2 shortCfg sampleWorld [''foo.txt'', ''d''] =
     Some (Inr \<lparr>Written = ''foo.txt'' @ nl @ ''d:'' @ nl @ ''A.txt'' @ tab @ tab @ tab @ ''b.txt'' @ nl,
                Stderr = [], ExitStatus = 0\<rparr>)"
  by (simp add: ls_main_def sample_defs entry_defs fetch_defs printDirect_def sortStrings_def
      printListing_def sortSliceLower_def asciiLower_def lowerChar_def formatError_def)

section \<open>Order of the names\<close>

lemma Join_Cons: "Join (x # xs) sep = x @ (if xs = [] then [] else sep @ Join xs sep)"
  by (cases xs) simp_all





lemmas print_defs =
  printListing_def printDirect_def printLongEntryInfo_def sortedSubEntries_def sortSliceLower_def
  sortStrings_def asciiLower_def lowerChar_def blocksForSize_def udiv_def timeFormat_def dateFormat_def
  showInt_def digit_def

lemma evenDir_short:
  "printListing shortCfg sampleWorld 1 0 evenDir = Inr (''A.txt'' @ tab @ tab @ tab @ ''b.txt'' @ nl)"
  by (simp add: sample_defs entry_defs print_defs)





section \<open>Headers and blank lines\<close>

lemma printListing_header:
  assumes "printListing cfg w n i entry = Inr out"
  shows "\<exists>body. printListing cfg w 0 0 entry = Inr body \<and>
           out = (if 0 < i then nl else []) @ (if 1 < n then SafeName entry @ '':'' @ nl else []) @ body"
  using assms by (auto simp add: printListing_def Let_def split: sum.splits if_splits)

lemma printOthers_sections:
  assumes "printOthers cfg w n i others False = Inr out"
  shows "\<exists>bodies. list_all2 (\<lambda>e b. printListing cfg w 0 0 e = Inr b) others bodies \<and>
           out = (if 0 < i \<and> others \<noteq> [] then nl else []) @
                 Join (map2 (\<lambda>e b. (if 1 < n then SafeName e @ '':'' @ nl else []) @ b) others bodies) nl"
  using assms
proof (induction others arbitrary: i out)
  case Nil
  then show ?case by simp
next
  case (Cons e rest)
  from Cons.prems obtain sec out' where sec: "printListing cfg w n i e = Inr sec"
    and rest: "printOthers cfg w n (Suc i) rest False = Inr out'" and out: "out = sec @ out'"
    by (auto split: sum.splits)
  from printListing_header [OF sec] obtain body where body: "printListing cfg w 0 0 e = Inr body"
    and s: "sec = (if 0 < i then nl else []) @ (if 1 < n then SafeName e @ '':'' @ nl else []) @ body"
    by blast
  from Cons.IH [OF rest] obtain bodies where
    bs: "list_all2 (\<lambda>e b. printListing cfg w 0 0 e = Inr b) rest bodies" and
    o': "out' = (if rest \<noteq> [] then nl else []) @
                 Join (map2 (\<lambda>e b. (if 1 < n then SafeName e @ '':'' @ nl else []) @ b) rest bodies) nl"
    by auto
  have len: "length rest = length bodies"
    using bs by (rule list_all2_lengthD)
  have "list_all2 (\<lambda>e b. printListing cfg w 0 0 e = Inr b) (e # rest) (body # bodies)"
    using body bs by simp
  moreover have "out = (if 0 < i \<and> e # rest \<noteq> [] then nl else []) @
      Join (map2 (\<lambda>e b. (if 1 < n then SafeName e @ '':'' @ nl else []) @ b) (e # rest) (body # bodies)) nl"
    using out s o' len by (cases rest; cases bodies) (simp_all add: Join_Cons)
  ultimately show ?case by blast
qed

lemma partitionEntries_filter:
  assumes "partitionEntries entries = Inr (ds, os)"
  shows "ds = filter (\<lambda>e. directRequest e \<and> entryIsDir e = Inr False) entries \<and>
         os = filter (\<lambda>e. \<not> (directRequest e \<and> entryIsDir e = Inr False)) entries \<and>
         (\<forall>e \<in> set entries. directRequest e \<longrightarrow> (\<exists>b. entryIsDir e = Inr b))"
  using assms
  by (induction entries arbitrary: ds os) (auto split: sum.splits if_splits)

lemma setters_keep [simp]:
  "path (setSys st e) = path e" "FileInfo (setSys st e) = FileInfo e"
  "directRequest (setSys st e) = directRequest e"
  "path (setUser u e) = path e" "FileInfo (setUser u e) = FileInfo e"
  "directRequest (setUser u e) = directRequest e"
  "path (setGroup g e) = path e" "FileInfo (setGroup g e) = FileInfo e"
  "directRequest (setGroup g e) = directRequest e"
  "path (setSubEntries subs e) = path e" "FileInfo (setSubEntries subs e) = FileInfo e"
  "directRequest (setSubEntries subs e) = directRequest e"
  by (simp_all add: setSys_def setUser_def setGroup_def setSubEntries_def)

lemma lookupUser_keeps:
  "lookupUser w e errs = (e', errs') \<Longrightarrow>
   path e' = path e \<and> FileInfo e' = FileInfo e \<and> directRequest e' = directRequest e"
  by (auto simp add: lookupUser_def split: if_splits sum.splits)

lemma lookupGroup_keeps:
  "lookupGroup w e errs = (e', errs') \<Longrightarrow>
   path e' = path e \<and> FileInfo e' = FileInfo e \<and> directRequest e' = directRequest e"
  by (auto simp add: lookupGroup_def split: if_splits sum.splits)

lemma fetchEntry_keeps:
  assumes "fetchEntry w recur e errs = Some (Inr (e', errs'))"
  shows "path e' = path e \<and> FileInfo e' = FileInfo e \<and> directRequest e' = directRequest e"
  using assms
  by (auto simp add: fetchEntry_def Let_def
      split: option.splits if_splits sum.splits prod.splits
      dest!: lookupUser_keeps lookupGroup_keeps)

lemma fetchLoop_keeps:
  "fetchLoop w recur entries errs = Some (Inr (entries', errs')) \<Longrightarrow>
   list_all2 (\<lambda>e' e. path e' = path e \<and> FileInfo e' = FileInfo e \<and> directRequest e' = directRequest e)
     entries' entries"
proof (induction entries arbitrary: errs entries' errs')
  case Nil
  then show ?case by simp
next
  case (Cons e rest)
  from Cons.prems obtain e' errs1 rest' where
    e: "fetchEntry w recur e errs = Some (Inr (e', errs1))" and
    r: "fetchLoop w recur rest errs1 = Some (Inr (rest', errs'))" and
    es: "entries' = e' # rest'"
    by (auto split: option.splits sum.splits prod.splits)
  from fetchEntry_keeps [OF e] Cons.IH [OF r] es show ?case
    by simp
qed

lemma fetchEntryInfo_keeps:
  assumes "fetchEntryInfo fuel w entries recurse = Some (Inr (entries', errs'))"
  shows "list_all2 (\<lambda>e' e. path e' = path e \<and> FileInfo e' = FileInfo e \<and> directRequest e' = directRequest e)
     entries' entries"
proof (cases fuel)
  case 0
  with assms show ?thesis by simp
next
  case (Suc n)
  with assms obtain errs where
    "fetchLoop w (\<lambda>subs. fetchEntryInfo n w subs recurse) entries [] = Some (Inr (entries', errs))"
    by (auto split: option.splits sum.splits prod.splits)
  then show ?thesis by (rule fetchLoop_keeps)
qed

lemma statPaths_roots:
  "statPaths w paths entries errs = (entries', errs') \<Longrightarrow>
   map path entries' = map path entries @ filter (\<lambda>p. \<not> isl (Stat w p)) paths \<and>
   map (\<lambda>e. (path e, FileInfo e)) entries' =
     map (\<lambda>e. (path e, FileInfo e)) entries @
     concat (map (\<lambda>p. case Stat w p of Inl err \<Rightarrow> [] | Inr fi \<Rightarrow> [(p, Some fi)]) paths) \<and>
   ((\<forall>e \<in> set entries. directRequest e) \<longrightarrow> (\<forall>e \<in> set entries'. directRequest e))"
proof (induction paths arbitrary: entries errs)
  case Nil
  then show ?case by simp
next
  case (Cons p rest)
  show ?case
  proof (cases "Stat w p")
    case (Inl err)
    with Cons.prems have "statPaths w rest entries (errs @ [err]) = (entries', errs')"
      by simp
    from Cons.IH [OF this] Inl show ?thesis by simp
  next
    case (Inr info)
    with Cons.prems have
      "statPaths w rest (entries @ [setDirectRequest True (newEntryInfo p (Some info))]) errs =
         (entries', errs')"
      by simp
    from Cons.IH [OF this] Inr show ?thesis
      by (simp add: setDirectRequest_def newEntryInfo_def)
  qed
qed

text \<open>
  C8, amended. Whenever the lister ends normally, let the root entries be what the fetch
  pass returns for the command line: one entry for each path whose \<^verbatim>\<open>Stat\<close> succeeded, in
  the order of the command line, with that path and the metadata \<^verbatim>\<open>Stat\<close> gave. The text
  written is then the block of the directly requested plain files followed by the
  sections of the directory roots, joined by one newline each (a blank line between two
  consecutive directory sections, none between the block of plain files and the first
  directory section); and the section of every directory root starts with its header
  \<^verbatim>\<open><name>:\<close> if there is more than one root entry, and has no header otherwise. So with
  at most one path, or with one path left after failed stats, no header is printed.
\<close>

theorem root_sections:
  assumes "ls_main fuel cfg w paths = Some (Inr res)"
  shows "\<exists>entries direct bodies.
     fetchEntryInfo fuel w (fst (statPaths w paths [] [])) False = Some (Inr (entries, [])) \<and>
     map (\<lambda>e. (path e, FileInfo e)) entries =
       concat (map (\<lambda>p. case Stat w p of Inl err \<Rightarrow> [] | Inr fi \<Rightarrow> [(p, Some fi)]) paths) \<and>
     map path entries = filter (\<lambda>p. \<not> isl (Stat w p)) paths \<and>
     printDirect cfg w (filter (\<lambda>e. entryIsDir e = Inr False) entries) = Inr direct \<and>
     list_all2 (\<lambda>e b. printListing cfg w 0 0 e = Inr b)
       (filter (\<lambda>e. entryIsDir e = Inr True) entries) bodies \<and>
     Written res = direct @
       Join (map2 (\<lambda>e b. (if 1 < length entries then SafeName e @ '':'' @ nl else []) @ b)
              (filter (\<lambda>e. entryIsDir e = Inr True) entries) bodies) nl"
proof -
  obtain roots errs where st: "statPaths w paths [] [] = (roots, errs)"
    by (cases "statPaths w paths [] []")
  from assms st obtain entries ferrs out where
    f: "fetchEntryInfo fuel w roots False = Some (Inr (entries, ferrs))" and
    p: "printEntries cfg w entries False = Inr out" and
    w: "Written res = out"
    by (auto simp add: ls_main_def Let_def split: option.splits sum.splits prod.splits)
  from fetchEntryInfo_returns_nil [OF f] f st have
    fe: "fetchEntryInfo fuel w (fst (statPaths w paths [] [])) False = Some (Inr (entries, []))"
    by simp
  from statPaths_roots [OF st] have
    rp: "map path roots = filter (\<lambda>p. \<not> isl (Stat w p)) paths" and
    rf: "map (\<lambda>e. (path e, FileInfo e)) roots =
           concat (map (\<lambda>p. case Stat w p of Inl err \<Rightarrow> [] | Inr fi \<Rightarrow> [(p, Some fi)]) paths)" and
    rd: "\<forall>e \<in> set roots. directRequest e"
    by simp_all
  from fetchEntryInfo_keeps [OF f] have
    keep: "list_all2 (\<lambda>e' e. path e' = path e \<and> FileInfo e' = FileInfo e \<and>
             directRequest e' = directRequest e) entries roots" .
  have ef: "map (\<lambda>e. (path e, FileInfo e)) entries = map (\<lambda>e. (path e, FileInfo e)) roots"
    using keep by (simp add: list_all2_conv_all_nth list_eq_iff_nth_eq)
  have ep: "map path entries = filter (\<lambda>p. \<not> isl (Stat w p)) paths"
  proof -
    from keep have "list_all2 (\<lambda>e' e. path e' = path e) entries roots"
      by (rule list_all2_mono) simp
    then have "map path entries = map path roots"
      by (simp add: list_all2_conv_all_nth list_eq_iff_nth_eq)
    with rp show ?thesis by simp
  qed
  have ed: "\<forall>e \<in> set entries. directRequest e"
  proof
    fix e
    assume "e \<in> set entries"
    then obtain i where i: "i < length entries" and e: "e = entries ! i"
      by (auto simp add: in_set_conv_nth)
    from keep i have len: "i < length roots" and "directRequest (entries ! i) = directRequest (roots ! i)"
      by (simp_all add: list_all2_conv_all_nth)
    moreover from len rd have "directRequest (roots ! i)"
      by simp
    ultimately show "directRequest e"
      using e by simp
  qed
  from p obtain ds os direct out' where
    pe: "partitionEntries entries = Inr (ds, os)" and
    d: "printDirect cfg w ds = Inr direct" and
    o: "printOthers cfg w (length entries) 0 os False = Inr out'" and
    out: "out = direct @ out'"
    by (auto split: sum.splits prod.splits)
  from partitionEntries_filter [OF pe] ed have
    ds: "ds = filter (\<lambda>e. entryIsDir e = Inr False) entries" and
    os: "os = filter (\<lambda>e. entryIsDir e = Inr True) entries"
    by (auto intro!: filter_cong)
  from printOthers_sections [OF o] obtain bodies where
    b: "list_all2 (\<lambda>e b. printListing cfg w 0 0 e = Inr b) os bodies" and
    o': "out' = Join (map2 (\<lambda>e b. (if 1 < length entries then SafeName e @ '':'' @ nl else []) @ b)
                   os bodies) nl"
    by auto
  from fe ef rf ep d b o' out w show ?thesis
    unfolding ds os by auto
qed

lemma ls_three:
  "ls_main 2 shortCfg sampleWorld [''d'', ''foo.txt'', ''fruit''] =
     Some (Inr \<lparr>Written = ''foo.txt'' @ nl @
                          ''d:'' @ nl @ ''A.txt'' @ tab @ tab @ tab @ ''b.txt'' @ nl @
                          nl @
                          ''fruit:'' @ nl @ ''apple'' @ tab @ tab @ tab @ ''Banana'' @ nl,
                Stderr = [], ExitStatus = 0\<rparr>)"
  by (simp add: ls_main_def sample_defs entry_defs fetch_defs print_defs)

lemma ls_one:
  "ls_main 2 shortCfg sampleWorld [''d''] =
     Some (Inr \<lparr>Written = ''A.txt'' @ tab @ tab @ tab @ ''b.txt'' @ nl, Stderr = [], ExitStatus = 0\<rparr>)"
  by (simp add: ls_main_def sample_defs entry_defs fetch_defs print_defs)

theorem root_sections_witness:
  "(\<exists>entries direct bodies.
     fetchEntryInfo 2 sampleWorld (fst (statPaths sampleWorld [''d'', ''foo.txt'', ''fruit''] [] [])) False =
       Some (Inr (entries, [])) \<and>
     map (\<lambda>e. (path e, FileInfo e)) entries =
       [(''d'', Some (dirOf 1000)), (''foo.txt'', Some (fileOf 1000 2)), (''fruit'', Some (dirOf 1000))] \<and>
     map path entries = [''d'', ''foo.txt'', ''fruit''] \<and>
     printDirect shortCfg sampleWorld (filter (\<lambda>e. entryIsDir e = Inr False) entries) = Inr direct \<and>
     list_all2 (\<lambda>e b. printListing shortCfg sampleWorld 0 0 e = Inr b)
       (filter (\<lambda>e. entryIsDir e = Inr True) entries) bodies \<and>
     ''foo.txt'' @ nl @ ''d:'' @ nl @ ''A.txt'' @ tab @ tab @ tab @ ''b.txt'' @ nl @ nl @
       ''fruit:'' @ nl @ ''apple'' @ tab @ tab @ tab @ ''Banana'' @ nl =
     direct @
       Join (map2 (\<lambda>e b. (if 1 < length entries then SafeName e @ '':'' @ nl else []) @ b)
              (filter (\<lambda>e. entryIsDir e = Inr True) entries) bodies) nl) \<and>
   (\<exists>entries direct bodies.
     fetchEntryInfo 2 sampleWorld (fst (statPaths sampleWorld [''d''] [] [])) False =
       Some (Inr (entries, [])) \<and>
     map (\<lambda>e. (path e, FileInfo e)) entries = [(''d'', Some (dirOf 1000))] \<and>
     map path entries = [''d''] \<and>
     printDirect shortCfg sampleWorld (filter (\<lambda>e. entryIsDir e = Inr False) entries) = Inr direct \<and>
     list_all2 (\<lambda>e b. printListing shortCfg sampleWorld 0 0 e = Inr b)
       (filter (\<lambda>e. entryIsDir e = Inr True) entries) bodies \<and>
     ''A.txt'' @ tab @ tab @ tab @ ''b.txt'' @ nl =
     direct @
       Join (map2 (\<lambda>e b. (if 1 < length entries then SafeName e @ '':'' @ nl else []) @ b)
              (filter (\<lambda>e. entryIsDir e = Inr True) entries) bodies) nl)"
proof -
  have s3: "filter (\<lambda>p. \<not> isl (Stat sampleWorld p)) [''d'', ''foo.txt'', ''fruit''] =
            [''d'', ''foo.txt'', ''fruit'']"
    by (simp add: sampleWorld_def)
  have c3: "concat (map (\<lambda>p. case Stat sampleWorld p of Inl err \<Rightarrow> [] | Inr fi \<Rightarrow> [(p, Some fi)])
              [''d'', ''foo.txt'', ''fruit'']) =
            [(''d'', Some (dirOf 1000)), (''foo.txt'', Some (fileOf 1000 2)), (''fruit'', Some (dirOf 1000))]"
    by (simp add: sampleWorld_def)
  have s1: "filter (\<lambda>p. \<not> isl (Stat sampleWorld p)) [''d''] = [''d'']"
    by (simp add: sampleWorld_def)
  have c1: "concat (map (\<lambda>p. case Stat sampleWorld p of Inl err \<Rightarrow> [] | Inr fi \<Rightarrow> [(p, Some fi)])
              [''d'']) = [(''d'', Some (dirOf 1000))]"
    by (simp add: sampleWorld_def)
  have 3: "\<exists>entries direct bodies.
     fetchEntryInfo 2 sampleWorld (fst (statPaths sampleWorld [''d'', ''foo.txt'', ''fruit''] [] [])) False =
       Some (Inr (entries, [])) \<and>
     map (\<lambda>e. (path e, FileInfo e)) entries =
       [(''d'', Some (dirOf 1000)), (''foo.txt'', Some (fileOf 1000 2)), (''fruit'', Some (dirOf 1000))] \<and>
     map path entries = [''d'', ''foo.txt'', ''fruit''] \<and>
     printDirect shortCfg sampleWorld (filter (\<lambda>e. entryIsDir e = Inr False) entries) = Inr direct \<and>
     list_all2 (\<lambda>e b. printListing shortCfg sampleWorld 0 0 e = Inr b)
       (filter (\<lambda>e. entryIsDir e = Inr True) entries) bodies \<and>
     ''foo.txt'' @ nl @ ''d:'' @ nl @ ''A.txt'' @ tab @ tab @ tab @ ''b.txt'' @ nl @ nl @
       ''fruit:'' @ nl @ ''apple'' @ tab @ tab @ tab @ ''Banana'' @ nl =
     direct @
       Join (map2 (\<lambda>e b. (if 1 < length entries then SafeName e @ '':'' @ nl else []) @ b)
              (filter (\<lambda>e. entryIsDir e = Inr True) entries) bodies) nl"
    using root_sections [OF ls_three] unfolding s3 c3 by simp
  have 1: "\<exists>entries direct bodies.
     fetchEntryInfo 2 sampleWorld (fst (statPaths sampleWorld [''d''] [] [])) False =
       Some (Inr (entries, [])) \<and>
     map (\<lambda>e. (path e, FileInfo e)) entries = [(''d'', Some (dirOf 1000))] \<and>
     map path entries = [''d''] \<and>
     printDirect shortCfg sampleWorld (filter (\<lambda>e. entryIsDir e = Inr False) entries) = Inr direct \<and>
     list_all2 (\<lambda>e b. printListing shortCfg sampleWorld 0 0 e = Inr b)
       (filter (\<lambda>e. entryIsDir e = Inr True) entries) bodies \<and>
     ''A.txt'' @ tab @ tab @ tab @ ''b.txt'' @ nl =
     direct @
       Join (map2 (\<lambda>e b. (if 1 < length entries then SafeName e @ '':'' @ nl else []) @ b)
              (filter (\<lambda>e. entryIsDir e = Inr True) entries) bodies) nl"
    using root_sections [OF ls_one] unfolding s1 c1 by simp
  from 3 1 show ?thesis ..
qed

section \<open>Owner and group columns\<close>

lemma setters_fields [simp]:
  "user (setSys st e) = user e" "group (setSys st e) = group e"
  "uID (setSys st e) = uint (Uid st)" "gID (setSys st e) = uint (Gid st)"
  "subEntries (setSys st e) = subEntries e"
  "user (setUser u e) = u" "group (setUser u e) = group e"
  "uID (setUser u e) = uID e" "gID (setUser u e) = gID e"
  "subEntries (setUser u e) = subEntries e"
  "user (setGroup g e) = user e" "group (setGroup g e) = g"
  "uID (setGroup g e) = uID e" "gID (setGroup g e) = gID e"
  "subEntries (setGroup g e) = subEntries e"
  "user (setSubEntries subs e) = user e" "group (setSubEntries subs e) = group e"
  "subEntries (setSubEntries subs e) = subs"
  "FileInfo (setSys st e) = FileInfo e" "FileInfo (setUser u e) = FileInfo e"
  "FileInfo (setGroup g e) = FileInfo e" "FileInfo (setSubEntries subs e) = FileInfo e"
  by (simp_all add: setSys_def setUser_def setGroup_def setSubEntries_def)

lemma uint_not_minus_one: "uint (x :: 32 word) \<noteq> - 1"
proof -
  have "0 \<le> uint x" by simp
  then show ?thesis by linarith
qed

lemma readChildren_fresh:
  "readChildren dirEntries errs = (subs, errs') \<Longrightarrow> list_all fresh subs"
  by (induction dirEntries arbitrary: errs subs errs')
     (auto simp add: fresh_def newEntryInfo_def split: sum.splits prod.splits)

lemma fetchEntry_resolved:
  assumes e: "fresh e"
    and f: "fetchEntry w recur e errs = Some (Inr (e', errs'))"
    and r: "\<And>subs subs' se. list_all fresh subs \<Longrightarrow> recur subs = Some (Inr (subs', se)) \<Longrightarrow>
              list_all (resolved w) subs'"
  shows "resolved w e' \<and> list_all (resolved w) (subEntries e')"
proof -
  from f obtain fi where fi: "FileInfo e = Some fi"
    by (auto simp add: fetchEntry_def split: option.splits)
  define e1 where "e1 = (case Sys fi of Some sysStat \<Rightarrow> setSys sysStat e | None \<Rightarrow> e)"
  obtain e2 errs2 where u: "lookupUser w e1 errs = (e2, errs2)"
    by (cases "lookupUser w e1 errs")
  obtain e3 errs3 where g: "lookupGroup w e2 errs2 = (e3, errs3)"
    by (cases "lookupGroup w e2 errs2")
  have e2: "FileInfo e2 = Some fi \<and> user e2 = ownerOf w fi \<and> group e2 = None \<and>
            gID e2 = gID e1 \<and> subEntries e2 = []"
    using u e fi
    by (auto simp add: e1_def lookupUser_def ownerOf_def fresh_def uint_not_minus_one
        split: option.splits sum.splits if_splits)
  have g1: "gID e1 = (case Sys fi of Some st \<Rightarrow> uint (Gid st) | None \<Rightarrow> - 1)"
    using e by (simp add: e1_def fresh_def split: option.splits)
  have e3: "FileInfo e3 = Some fi \<and> user e3 = ownerOf w fi \<and> group e3 = groupOf w fi \<and>
            subEntries e3 = []"
    using g e2 g1
    by (auto simp add: lookupGroup_def groupOf_def uint_not_minus_one
        split: option.splits sum.splits if_splits)
  have step: "fetchEntry w recur e errs =
      (if IsDir fi then
         (let (dirEntries, rerr) = ReadDir w (path e3);
              errs4 = (case rerr of Some err \<Rightarrow> errs3 @ [err] | None \<Rightarrow> errs3);
              (subs, errs5) = readChildren dirEntries errs4
          in case recur subs of
               None \<Rightarrow> None
             | Some (Inl p) \<Rightarrow> Some (Inl p)
             | Some (Inr (subs', suberrs)) \<Rightarrow> Some (Inr (setSubEntries subs' e3, errs5 @ suberrs)))
       else Some (Inr (e3, errs3)))"
    unfolding fetchEntry_def fi option.case e1_def [symmetric] Let_def u g prod.case ..
  show ?thesis
  proof (cases "IsDir fi")
    case False
    with step f have "e' = e3" by simp
    with e3 show ?thesis by (simp add: resolved_def)
  next
    case True
    obtain dirEntries rerr where rd: "ReadDir w (path e3) = (dirEntries, rerr)"
      by (cases "ReadDir w (path e3)")
    obtain subs errs5 where rc:
      "readChildren dirEntries (case rerr of Some err \<Rightarrow> errs3 @ [err] | None \<Rightarrow> errs3) = (subs, errs5)"
      by (cases "readChildren dirEntries (case rerr of Some err \<Rightarrow> errs3 @ [err] | None \<Rightarrow> errs3)")
    from step f True rd rc obtain subs' suberrs where
      rs: "recur subs = Some (Inr (subs', suberrs))" and e': "e' = setSubEntries subs' e3"
      by (auto simp add: Let_def split: option.splits sum.splits prod.splits)
    from r [OF readChildren_fresh [OF rc] rs] have "list_all (resolved w) subs'" .
    with e' e3 show ?thesis by (simp add: resolved_def)
  qed
qed

lemma fetchLoop_resolved:
  assumes r: "\<And>subs subs' se. list_all fresh subs \<Longrightarrow> recur subs = Some (Inr (subs', se)) \<Longrightarrow>
              list_all (resolved w) subs'"
  shows "list_all fresh entries \<Longrightarrow> fetchLoop w recur entries errs = Some (Inr (entries', errs')) \<Longrightarrow>
         list_all (\<lambda>e. resolved w e \<and> list_all (resolved w) (subEntries e)) entries'"
proof (induction entries arbitrary: errs entries' errs')
  case Nil
  then show ?case by simp
next
  case (Cons e rest)
  from Cons.prems(2) obtain e' errs1 rest' where
    e: "fetchEntry w recur e errs = Some (Inr (e', errs1))" and
    l: "fetchLoop w recur rest errs1 = Some (Inr (rest', errs'))" and
    es: "entries' = e' # rest'"
    by (auto split: option.splits sum.splits prod.splits)
  from Cons.prems(1) have fe: "fresh e" and fr: "list_all fresh rest"
    by simp_all
  from fetchEntry_resolved [OF fe e r] Cons.IH [OF fr l] es show ?case
    by simp
qed

lemma fetchEntryInfo_resolved:
  "list_all fresh entries \<Longrightarrow> fetchEntryInfo fuel w entries recurse = Some (Inr (entries', errs')) \<Longrightarrow>
   list_all (\<lambda>e. resolved w e \<and> list_all (resolved w) (subEntries e)) entries'"
proof (induction fuel arbitrary: entries entries' errs')
  case 0
  then show ?case by simp
next
  case (Suc fuel)
  from Suc.prems(2) obtain errs where
    l: "fetchLoop w (\<lambda>subs. fetchEntryInfo fuel w subs recurse) entries [] = Some (Inr (entries', errs))"
    by (auto split: option.splits sum.splits prod.splits)
  have "list_all (resolved w) subs'"
    if "list_all fresh subs" "fetchEntryInfo fuel w subs recurse = Some (Inr (subs', se))"
    for subs subs' se
    using Suc.IH [OF that] by (simp add: list_all_iff)
  from fetchLoop_resolved [of "\<lambda>subs. fetchEntryInfo fuel w subs recurse" w, OF this Suc.prems(1) l]
  show ?case .
qed

lemma statPaths_fresh:
  "list_all fresh entries \<Longrightarrow> list_all fresh (fst (statPaths w paths entries errs))"
  by (induction paths arbitrary: entries errs)
     (auto simp add: fresh_def newEntryInfo_def setDirectRequest_def split: sum.splits)

lemma printLongEntryInfo_resolved:
  assumes "resolved w e"
  shows "\<exists>fi. FileInfo e = Some fi \<and>
    printLongEntryInfo w e =
      Inr (ModeString fi @ tab @ showInt (numLinks e) @ tab @
           (case ownerOf w fi of None \<Rightarrow> ''Unknown'' | Some u \<Rightarrow> Username u) @ tab @
           (case groupOf w fi of None \<Rightarrow> ''Unknown'' | Some g \<Rightarrow> Name g) @ tab @
           showInt (Size fi) @ tab @
           FormatTime w (if YearOf w (ModTime fi) < NowYear w then dateFormat else timeFormat) (ModTime fi) @
           tab @ SafeName e @ nl)"
proof -
  from assms obtain fi where fi: "FileInfo e = Some fi"
    and u: "user e = ownerOf w fi" and g: "group e = groupOf w fi"
    by (cases "FileInfo e") (simp_all add: resolved_def)
  have "printLongEntryInfo w e =
      Inr (ModeString fi @ tab @ showInt (numLinks e) @ tab @
           (case ownerOf w fi of None \<Rightarrow> ''Unknown'' | Some u \<Rightarrow> Username u) @ tab @
           (case groupOf w fi of None \<Rightarrow> ''Unknown'' | Some g \<Rightarrow> Name g) @ tab @
           showInt (Size fi) @ tab @
           FormatTime w (if YearOf w (ModTime fi) < NowYear w then dateFormat else timeFormat) (ModTime fi) @
           tab @ SafeName e @ nl)"
    unfolding printLongEntryInfo_def fi option.case Let_def u g
    by (simp only: append_assoc)
  with fi show ?thesis by blast
qed

lemma digit_in: "d < 10 \<Longrightarrow> digit d \<in> set ''0123456789''"
  unfolding digit_def by (rule nth_mem) simp

lemma digit_not_U: "d < 10 \<Longrightarrow> digit d \<noteq> CHR ''U''"
proof
  assume "d < 10" "digit d = CHR ''U''"
  with digit_in [of d] have "CHR ''U'' \<in> set ''0123456789''"
    by (simp only:)
  then show False by simp
qed

lemma showNat_no_U: "CHR ''U'' \<notin> set (showNat n)"
proof (induction n rule: showNat.induct)
  case (1 n)
  show ?case
  proof (cases "n < 10")
    case True
    then show ?thesis
      using digit_not_U [of n] by (auto simp add: showNat.simps [of n])
  next
    case False
    have "n mod 10 < 10" by simp
    from digit_not_U [OF this] 1 [OF False] False show ?thesis
      by (auto simp add: showNat.simps [of n])
  qed
qed

lemma showInt_no_U: "CHR ''U'' \<notin> set (showInt i)"
  by (simp add: showInt_def showNat_no_U)

lemma showInt_not_Unknown: "''Unknown'' \<noteq> showInt i"
proof
  assume eq: "''Unknown'' = showInt i"
  have "CHR ''U'' \<in> set ''Unknown''"
    by simp
  then have "CHR ''U'' \<in> set (showInt i)"
    unfolding eq .
  with showInt_no_U [of i] show False
    by (rule notE)
qed

text \<open>
  C9, as the specification states it, fails when the lookup succeeds: the column is the
  name the account database holds, whatever it is. Where the account of user 1000 is
  named \<^verbatim>\<open>1000\<close> and the name of group 100 is empty, the row of \<^verbatim>\<open>foo.txt\<close> has the owner
  column \<^verbatim>\<open>1000\<close>, which is the numeric id in decimal, and an empty group column.
\<close>

theorem owner_and_group_columns_counterexample:
  "fetchEntryInfo 1 numericWorld (fst (statPaths numericWorld [''foo.txt''] [] [])) False =
     Some (Inr ([EntryInfo ''foo.txt'' (Some (fileOf 1000 2)) True 1 2 1000 100
                   (Some \<lparr>Username = ''1000''\<rparr>) (Some \<lparr>Name = []\<rparr>) []], [])) \<and>
   printLongEntryInfo numericWorld
     (EntryInfo ''foo.txt'' (Some (fileOf 1000 2)) True 1 2 1000 100
        (Some \<lparr>Username = ''1000''\<rparr>) (Some \<lparr>Name = []\<rparr>) []) =
     Inr (''-rw-r--r--'' @ tab @ ''1'' @ tab @ ''1000'' @ tab @ [] @ tab @ ''5'' @ tab @
          dateFormat @ tab @ ''foo.txt'' @ nl) \<and>
   showInt 1000 = ''1000''"
  by (simp add: numericWorld_def sample_defs entry_defs fetch_defs printLongEntryInfo_def
      showInt_def showNat.simps [of 1000] showNat.simps [of 100] showNat.simps [of 10] digit_def)

text \<open>
  C9, amended. Take any run of the fetch pass of \<^verbatim>\<open>main\<close> that returns, and any root entry
  or child of a root entry (these are the entries the lister renders). Its long-format
  row is the tab-separated line of mode, link count, owner, group, size, time and name.
  The owner is the \<^verbatim>\<open>Username\<close> of the account that \<^verbatim>\<open>user.LookupId\<close> gives for the numeric
  uid of the file's metadata, as the account database holds it. When that lookup fails
  or the metadata has no uid, the owner is the literal \<^verbatim>\<open>Unknown\<close>, which is not empty and
  is not the decimal form of any number, so not the numeric id. The same holds of the
  group with \<^verbatim>\<open>user.LookupGroupId\<close>, the gid and \<^verbatim>\<open>Name\<close>.
\<close>

theorem long_row_owner_and_group:
  assumes fetch: "fetchEntryInfo fuel w (fst (statPaths w paths [] [])) False = Some (Inr (entries, errs))"
    and e: "e \<in> set entries \<or> (\<exists>d \<in> set entries. e \<in> set (subEntries d))"
  shows "\<exists>fi owner grp. FileInfo e = Some fi \<and>
    printLongEntryInfo w e =
      Inr (ModeString fi @ tab @ showInt (numLinks e) @ tab @ owner @ tab @ grp @ tab @
           showInt (Size fi) @ tab @
           FormatTime w (if YearOf w (ModTime fi) < NowYear w then dateFormat else timeFormat) (ModTime fi) @
           tab @ SafeName e @ nl) \<and>
    (case Sys fi of
       None \<Rightarrow> owner = ''Unknown'' \<and> owner \<noteq> [] \<and> owner \<notin> range showInt
     | Some st \<Rightarrow> (case LookupId w (uint (Uid st)) of
                     Inl err \<Rightarrow> owner = ''Unknown'' \<and> owner \<noteq> [] \<and> owner \<notin> range showInt
                   | Inr u \<Rightarrow> owner = Username u)) \<and>
    (case Sys fi of
       None \<Rightarrow> grp = ''Unknown'' \<and> grp \<noteq> [] \<and> grp \<notin> range showInt
     | Some st \<Rightarrow> (case LookupGroupId w (uint (Gid st)) of
                     Inl err \<Rightarrow> grp = ''Unknown'' \<and> grp \<noteq> [] \<and> grp \<notin> range showInt
                   | Inr g \<Rightarrow> grp = Name g))"
proof -
  have "list_all fresh (fst (statPaths w paths [] []))"
    by (rule statPaths_fresh) simp
  from fetchEntryInfo_resolved [OF this fetch] e have "resolved w e"
    by (auto simp add: list_all_iff)
  from printLongEntryInfo_resolved [OF this] obtain fi where fi: "FileInfo e = Some fi" and
    line: "printLongEntryInfo w e =
      Inr (ModeString fi @ tab @ showInt (numLinks e) @ tab @
           (case ownerOf w fi of None \<Rightarrow> ''Unknown'' | Some u \<Rightarrow> Username u) @ tab @
           (case groupOf w fi of None \<Rightarrow> ''Unknown'' | Some g \<Rightarrow> Name g) @ tab @
           showInt (Size fi) @ tab @
           FormatTime w (if YearOf w (ModTime fi) < NowYear w then dateFormat else timeFormat) (ModTime fi) @
           tab @ SafeName e @ nl)"
    by blast
  let ?owner = "case ownerOf w fi of None \<Rightarrow> ''Unknown'' | Some u \<Rightarrow> Username u"
  let ?grp = "case groupOf w fi of None \<Rightarrow> ''Unknown'' | Some g \<Rightarrow> Name g"
  have unk: "''Unknown'' \<notin> range showInt"
    using showInt_not_Unknown by blast
  have o2: "case Sys fi of
       None \<Rightarrow> ?owner = ''Unknown'' \<and> ?owner \<noteq> [] \<and> ?owner \<notin> range showInt
     | Some st \<Rightarrow> (case LookupId w (uint (Uid st)) of
                     Inl err \<Rightarrow> ?owner = ''Unknown'' \<and> ?owner \<noteq> [] \<and> ?owner \<notin> range showInt
                   | Inr u \<Rightarrow> ?owner = Username u)"
    using unk by (simp add: ownerOf_def split: option.splits sum.splits)
  have g2: "case Sys fi of
       None \<Rightarrow> ?grp = ''Unknown'' \<and> ?grp \<noteq> [] \<and> ?grp \<notin> range showInt
     | Some st \<Rightarrow> (case LookupGroupId w (uint (Gid st)) of
                     Inl err \<Rightarrow> ?grp = ''Unknown'' \<and> ?grp \<noteq> [] \<and> ?grp \<notin> range showInt
                   | Inr g \<Rightarrow> ?grp = Name g)"
    using unk by (simp add: groupOf_def split: option.splits sum.splits)
  from fi line o2 g2 show ?thesis
    by blast
qed

lemma fetch_orphan_d:
  "fetchEntryInfo 2 sampleWorld (fst (statPaths sampleWorld [''orphan'', ''d''] [] [])) False =
     Some (Inr ([EntryInfo ''orphan'' (Some (fileOf 4242 2)) True 1 2 4242 100 None
                   (Some \<lparr>Name = ''users''\<rparr>) [],
                 EntryInfo ''d'' (Some (dirOf 1000)) True 1 8 1000 100 (Some \<lparr>Username = ''alice''\<rparr>)
                   (Some \<lparr>Name = ''users''\<rparr>)
                   [EntryInfo ''b.txt'' (Some (fileOf 1000 2)) False 1 2 1000 100
                      (Some \<lparr>Username = ''alice''\<rparr>) (Some \<lparr>Name = ''users''\<rparr>) [],
                    EntryInfo ''A.txt'' (Some (fileOf 1000 4)) False 1 4 1000 100
                      (Some \<lparr>Username = ''alice''\<rparr>) (Some \<lparr>Name = ''users''\<rparr>) []]],
                []))"
  by (simp add: sample_defs entry_defs fetch_defs)

lemma sample_lookups:
  "\<exists>err. LookupId sampleWorld (uint (Uid (sampleStat 4242 blocks))) = Inl err"
  "LookupId sampleWorld (uint (Uid (sampleStat 1000 blocks))) = Inr \<lparr>Username = ''alice''\<rparr>"
  "LookupGroupId sampleWorld (uint (Gid (sampleStat uid blocks))) = Inr \<lparr>Name = ''users''\<rparr>"
  "FormatTime sampleWorld f t = f"
  "YearOf sampleWorld t < NowYear sampleWorld"
  by (simp_all add: sampleWorld_def sampleStat_def)

lemma sample_columns:
  "Sys (fileOf uid blocks) = Some (sampleStat uid blocks)"
  "ModeString (fileOf uid blocks) = ''-rw-r--r--''"
  "showInt (Size (fileOf uid blocks)) = ''5''"
  "showInt 1 = ''1''"
  by (simp_all add: fileOf_def showInt_def digit_def)

theorem long_row_owner_and_group_witness:
  "printLongEntryInfo sampleWorld
     (EntryInfo ''orphan'' (Some (fileOf 4242 2)) True 1 2 4242 100 None (Some \<lparr>Name = ''users''\<rparr>) []) =
     Inr (''-rw-r--r--'' @ tab @ ''1'' @ tab @ ''Unknown'' @ tab @ ''users'' @ tab @ ''5'' @ tab @
          dateFormat @ tab @ ''orphan'' @ nl) \<and>
   printLongEntryInfo sampleWorld
     (EntryInfo ''A.txt'' (Some (fileOf 1000 4)) False 1 4 1000 100
        (Some \<lparr>Username = ''alice''\<rparr>) (Some \<lparr>Name = ''users''\<rparr>) []) =
     Inr (''-rw-r--r--'' @ tab @ ''1'' @ tab @ ''alice'' @ tab @ ''users'' @ tab @ ''5'' @ tab @
          dateFormat @ tab @ ''A.txt'' @ nl)"
proof -
  let ?orphan = "EntryInfo ''orphan'' (Some (fileOf 4242 2)) True 1 2 4242 100 None
                   (Some \<lparr>Name = ''users''\<rparr>) []"
  let ?a = "EntryInfo ''A.txt'' (Some (fileOf 1000 4)) False 1 4 1000 100
              (Some \<lparr>Username = ''alice''\<rparr>) (Some \<lparr>Name = ''users''\<rparr>) []"
  note inst = long_row_owner_and_group [OF fetch_orphan_d]
  have "\<exists>fi owner grp. FileInfo ?orphan = Some fi \<and>
    printLongEntryInfo sampleWorld ?orphan =
      Inr (ModeString fi @ tab @ showInt (numLinks ?orphan) @ tab @ owner @ tab @ grp @ tab @
           showInt (Size fi) @ tab @
           FormatTime sampleWorld
             (if YearOf sampleWorld (ModTime fi) < NowYear sampleWorld then dateFormat else timeFormat)
             (ModTime fi) @
           tab @ SafeName ?orphan @ nl) \<and>
    (case Sys fi of
       None \<Rightarrow> owner = ''Unknown'' \<and> owner \<noteq> [] \<and> owner \<notin> range showInt
     | Some st \<Rightarrow> (case LookupId sampleWorld (uint (Uid st)) of
                     Inl err \<Rightarrow> owner = ''Unknown'' \<and> owner \<noteq> [] \<and> owner \<notin> range showInt
                   | Inr u \<Rightarrow> owner = Username u)) \<and>
    (case Sys fi of
       None \<Rightarrow> grp = ''Unknown'' \<and> grp \<noteq> [] \<and> grp \<notin> range showInt
     | Some st \<Rightarrow> (case LookupGroupId sampleWorld (uint (Gid st)) of
                     Inl err \<Rightarrow> grp = ''Unknown'' \<and> grp \<noteq> [] \<and> grp \<notin> range showInt
                   | Inr g \<Rightarrow> grp = Name g))"
    by (rule inst) simp
  moreover obtain err where "LookupId sampleWorld (uint (Uid (sampleStat 4242 2))) = Inl err"
    using sample_lookups(1) [of 2] ..
  ultimately have 1: "printLongEntryInfo sampleWorld ?orphan =
     Inr (''-rw-r--r--'' @ tab @ ''1'' @ tab @ ''Unknown'' @ tab @ ''users'' @ tab @ ''5'' @ tab @
          dateFormat @ tab @ ''orphan'' @ nl)"
    by (auto simp add: sample_lookups(2-) sample_columns SafeName_def)
  have "\<exists>fi owner grp. FileInfo ?a = Some fi \<and>
    printLongEntryInfo sampleWorld ?a =
      Inr (ModeString fi @ tab @ showInt (numLinks ?a) @ tab @ owner @ tab @ grp @ tab @
           showInt (Size fi) @ tab @
           FormatTime sampleWorld
             (if YearOf sampleWorld (ModTime fi) < NowYear sampleWorld then dateFormat else timeFormat)
             (ModTime fi) @
           tab @ SafeName ?a @ nl) \<and>
    (case Sys fi of
       None \<Rightarrow> owner = ''Unknown'' \<and> owner \<noteq> [] \<and> owner \<notin> range showInt
     | Some st \<Rightarrow> (case LookupId sampleWorld (uint (Uid st)) of
                     Inl err \<Rightarrow> owner = ''Unknown'' \<and> owner \<noteq> [] \<and> owner \<notin> range showInt
                   | Inr u \<Rightarrow> owner = Username u)) \<and>
    (case Sys fi of
       None \<Rightarrow> grp = ''Unknown'' \<and> grp \<noteq> [] \<and> grp \<notin> range showInt
     | Some st \<Rightarrow> (case LookupGroupId sampleWorld (uint (Gid st)) of
                     Inl err \<Rightarrow> grp = ''Unknown'' \<and> grp \<noteq> [] \<and> grp \<notin> range showInt
                   | Inr g \<Rightarrow> grp = Name g))"
    by (rule inst) simp
  then have 2: "printLongEntryInfo sampleWorld ?a =
     Inr (''-rw-r--r--'' @ tab @ ''1'' @ tab @ ''alice'' @ tab @ ''users'' @ tab @ ''5'' @ tab @
          dateFormat @ tab @ ''A.txt'' @ nl)"
    by (auto simp add: sample_lookups(2-) sample_columns SafeName_def)
  from 1 2 show ?thesis ..
qed

section \<open>A fetch pass that does not end\<close>

text \<open>
  A child's path is its bare name, so reading the child \<^verbatim>\<open>d\<close> of the directory \<^verbatim>\<open>d\<close> reads
  the directory \<^verbatim>\<open>d\<close> itself again: no recursion depth suffices, and \<^verbatim>\<open>ls d\<close> never
  prints anything.
\<close>

lemma fetchEntry_loop:
  assumes "path e = ''d''" "FileInfo e = Some (dirOf 1000)"
    and "\<And>c cs. path c = ''d'' \<Longrightarrow> FileInfo c = Some (dirOf 1000) \<Longrightarrow> recur (c # cs) = None"
  shows "fetchEntry loopWorld recur e errs = None"
proof -
  define e1 where "e1 = (case Sys (dirOf 1000) of Some sysStat \<Rightarrow> setSys sysStat e | None \<Rightarrow> e)"
  obtain e2 errs2 where u: "lookupUser loopWorld e1 errs = (e2, errs2)"
    by (cases "lookupUser loopWorld e1 errs")
  obtain e3 errs3 where g: "lookupGroup loopWorld e2 errs2 = (e3, errs3)"
    by (cases "lookupGroup loopWorld e2 errs2")
  have "path e1 = path e"
    by (simp add: e1_def split: option.splits)
  with lookupUser_keeps [OF u] lookupGroup_keeps [OF g] assms(1) have p: "path e3 = ''d''"
    by simp
  have rd: "ReadDir loopWorld ''d'' = ([\<lparr>DName = ''d'', DInfo = Inr (dirOf 1000)\<rparr>], None)"
    by (simp add: loopWorld_def sampleWorld_def)
  have dir: "IsDir (dirOf 1000)"
    by (simp add: dirOf_def)
  have "recur [newEntryInfo ''d'' (Some (dirOf 1000))] = None"
    by (rule assms(3)) (simp_all add: newEntryInfo_def)
  then show ?thesis
    unfolding fetchEntry_def assms(2) option.case e1_def [symmetric] Let_def u g prod.case p rd
    by (simp add: dir)
qed

lemma fetchEntryInfo_loop:
  "path e = ''d'' \<Longrightarrow> FileInfo e = Some (dirOf 1000) \<Longrightarrow>
   fetchEntryInfo fuel loopWorld (e # es) recurse = None"
proof (induction fuel arbitrary: e es)
  case 0
  show ?case by simp
next
  case (Suc fuel)
  have "fetchEntry loopWorld (\<lambda>subs. fetchEntryInfo fuel loopWorld subs recurse) e [] = None"
    using Suc.prems by (rule fetchEntry_loop) (rule Suc.IH)
  then show ?case by simp
qed

lemma ls_main_loop: "ls_main fuel cfg loopWorld [''d''] = None"
proof -
  have "statPaths loopWorld [''d''] [] [] =
          ([setDirectRequest True (newEntryInfo ''d'' (Some (dirOf 1000)))], [])"
    by (simp add: loopWorld_def sampleWorld_def)
  moreover have "fetchEntryInfo fuel loopWorld
       [setDirectRequest True (newEntryInfo ''d'' (Some (dirOf 1000)))] False = None"
    by (rule fetchEntryInfo_loop) (simp_all add: setDirectRequest_def newEntryInfo_def)
  ultimately show ?thesis
    by (simp add: ls_main_def)
qed

end
